theory Spec2Isabelle
  imports Main
begin

section \<open>The embedding service of \<^verbatim>\<open>transformersEmbeddings.js\<close>\<close>

text \<open>
  The class \<^verbatim>\<open>TransformersEmbeddings\<close> wraps a text-embedding pipeline that is loaded on
  first use. Its methods are \<^verbatim>\<open>async\<close>: each runs on the single JavaScript thread until
  it reaches an \<^verbatim>\<open>await\<close>, and is resumed when the awaited promise settles.

  The model below keeps that structure. The object's fields and the promise objects it
  creates are a record that every operation takes and returns. What the outside world
  decides (whether a model load succeeds, what the loaded pipeline returns for a text, the
  order in which the computations of a batch complete, the clock) is a second record, the
  environment. A thrown exception is the \<open>Inl\<close> of a sum type.
\<close>

subsection \<open>Errors and promises\<close>

text \<open>
  A thrown JavaScript error object: the name of its class (\<^verbatim>\<open>Error\<close>, \<^verbatim>\<open>TypeError\<close>, or
  whatever class the library throws) and its \<^verbatim>\<open>message\<close>. The source only ever reads
  \<^verbatim>\<open>error.message\<close> and only ever constructs \<^verbatim>\<open>new Error(...)\<close>.
\<close>

datatype error = JSError (errname: string) (message: string)

definition new_Error :: "string \<Rightarrow> error" where
  "new_Error msg = JSError ''Error'' msg"

text \<open>The state of a promise object.\<close>

datatype promise = Pending | Fulfilled | Rejected error

text \<open>
  The pattern \<^verbatim>\<open>try { ... } catch (error) { throw new Error(`prefix${error.message}`) }\<close>
  that closes \<^verbatim>\<open>_initializeModel\<close>, \<^verbatim>\<open>embedDocuments\<close>, \<^verbatim>\<open>embedQuery\<close> and
  \<^verbatim>\<open>getEmbeddingDimension\<close>: a result passes, an error is replaced by a new one.
\<close>

definition rethrow :: "string \<Rightarrow> (error + 'a) \<times> 's \<Rightarrow> (error + 'a) \<times> 's" where
  "rethrow prefix r =
     (case r of
        (Inl e, s) \<Rightarrow> (Inl (new_Error (prefix @ message e)), s)
      | (Inr v, s) \<Rightarrow> (Inr v, s))"

subsection \<open>The service object and its environment\<close>

text \<open>
  The loaded pipeline (\<^verbatim>\<open>this.model\<close>), called as \<^verbatim>\<open>this.model(text, {pooling, normalize})\<close>:
  it throws, or returns a tensor whose \<^verbatim>\<open>data\<close> the source copies with \<^verbatim>\<open>Array.from\<close>.
  The numbers of a vector are kept abstract (\<open>'v\<close>).
\<close>

type_synonym 'v pipeline = "string \<Rightarrow> error + 'v list"

text \<open>
  The fields set by the constructor, followed by the promise objects that
  \<^verbatim>\<open>_initializeModel()\<close> has returned (\<open>initializationPromise\<close> holds a reference into
  \<open>promises\<close>), and two counters of effects on the outside world: \<open>loads\<close>, the number of
  calls of \<^verbatim>\<open>pipeline(...)\<close> started so far (the next promise is created at that address), and
  \<open>inferred\<close>, the texts passed to \<^verbatim>\<open>this.model(...)\<close> so far, in call order.
  \<open>cachedDimension\<close> is \<^verbatim>\<open>_cachedDimension\<close>: \<^verbatim>\<open>null\<close> or a number.
\<close>

record 'v service =
  model :: "'v pipeline option"
  modelName :: string
  isInitialized :: bool
  initializationPromise :: "nat option"
  cachedDimension :: "nat option"
  promises :: "nat \<Rightarrow> promise"
  loads :: nat
  inferred :: "string list"

text \<open>
  The environment: \<open>pipeline_load env k name\<close> is how the \<open>k\<close>-th call of
  \<^verbatim>\<open>pipeline('feature-extraction', name, ...)\<close> ends (it throws, or yields a pipeline);
  \<open>completion env i\<close> lists, for the batch that starts at index \<open>i\<close>, positions of the
  batch in the order in which their computations complete (positions it leaves out complete
  afterwards, in index order); \<open>clock\<close> is what \<^verbatim>\<open>new Date().toISOString()\<close> returns.
  Every awaited external operation is taken to settle.
\<close>

record 'v env =
  pipeline_load :: "nat \<Rightarrow> string \<Rightarrow> error + 'v pipeline"
  completion :: "nat \<Rightarrow> nat list"
  clock :: string

text \<open>
  The constructor; its argument is the value of
  \<^verbatim>\<open>process.env.EMBEDDING_MODEL || 'Xenova/all-MiniLM-L6-v2'\<close>.
\<close>

definition constructor :: "string \<Rightarrow> 'v service" where
  "constructor name =
     \<lparr> model = None, modelName = name, isInitialized = False,
       initializationPromise = None, cachedDimension = None,
       promises = (\<lambda>_. Pending), loads = 0, inferred = [] \<rparr>"

subsection \<open>\<^verbatim>\<open>initialize\<close> and \<^verbatim>\<open>_initializeModel\<close>\<close>

text \<open>
  \<^verbatim>\<open>_initializeModel()\<close> up to its \<^verbatim>\<open>await\<close>: the load is started and the call returns
  a new pending promise.
\<close>

definition initializeModel :: "'v service \<Rightarrow> nat \<times> 'v service" where
  "initializeModel s =
     (loads s, s\<lparr> promises := (promises s)(loads s := Pending), loads := loads s + 1 \<rparr>)"

text \<open>
  \<^verbatim>\<open>_initializeModel()\<close> after its \<^verbatim>\<open>await\<close>, when load \<open>p\<close> has ended: on success it
  stores the pipeline and sets \<open>isInitialized\<close>; on failure the \<^verbatim>\<open>catch\<close> throws a new
  error. Nothing else is assigned: \<open>initializationPromise\<close> keeps its value on both paths.
\<close>

definition initializeModel_body :: "'v env \<Rightarrow> nat \<Rightarrow> 'v service \<Rightarrow> (error + unit) \<times> 'v service" where
  "initializeModel_body env p s =
     rethrow ''Failed to initialize embedding model: ''
       (case pipeline_load env p (modelName s) of
          Inl e \<Rightarrow> (Inl e, s)
        | Inr m \<Rightarrow> (Inr (), s\<lparr> model := Some m, isInitialized := True \<rparr>))"

text \<open>The promise that the call returned settles with the outcome of the body.\<close>

definition resume_initializeModel :: "'v env \<Rightarrow> nat \<Rightarrow> 'v service \<Rightarrow> (error + unit) \<times> 'v service" where
  "resume_initializeModel env p s =
     (case initializeModel_body env p s of
        (Inl e, s') \<Rightarrow> (Inl e, s'\<lparr> promises := (promises s')(p := Rejected e) \<rparr>)
      | (Inr u, s') \<Rightarrow> (Inr u, s'\<lparr> promises := (promises s')(p := Fulfilled) \<rparr>))"

text \<open>
  What a call of \<^verbatim>\<open>initialize()\<close> hands to its caller: a promise that is already
  fulfilled (the \<^verbatim>\<open>return;\<close> of the first branch), or one that follows the promise object at
  the given address.
\<close>

datatype handle = Immediate | Awaits nat

definition initialize :: "'v service \<Rightarrow> handle \<times> 'v service" where
  "initialize s =
     (if isInitialized s then (Immediate, s)
      else case initializationPromise s of
             Some p \<Rightarrow> (Awaits p, s)
           | None \<Rightarrow>
               (let (p, s') = initializeModel s
                in (Awaits p, s'\<lparr> initializationPromise := Some p \<rparr>)))"

text \<open>What the holder of a handle observes in a state.\<close>

definition observed :: "'v service \<Rightarrow> handle \<Rightarrow> promise" where
  "observed s h = (case h of Immediate \<Rightarrow> Fulfilled | Awaits p \<Rightarrow> promises s p)"

subsection \<open>Concurrent callers of \<^verbatim>\<open>initialize\<close>\<close>

text \<open>
  Between two \<^verbatim>\<open>await\<close>s nothing else runs, so an execution with any number of callers is a
  sequence of two kinds of event: some caller calls \<^verbatim>\<open>initialize()\<close> (and receives a
  handle), or a load that is in flight ends and \<^verbatim>\<open>_initializeModel\<close> resumes. The handles
  are collected in call order.
\<close>

datatype event = CallInitialize | LoadSettles nat

fun step :: "'v env \<Rightarrow> 'v service \<times> handle list \<Rightarrow> event \<Rightarrow> 'v service \<times> handle list" where
  "step env (s, hs) CallInitialize = (let (h, s') = initialize s in (s', hs @ [h]))"
| "step env (s, hs) (LoadSettles p) =
     (if p < loads s \<and> promises s p = Pending then (snd (resume_initializeModel env p s), hs)
      else (s, hs))"

definition run :: "'v env \<Rightarrow> event list \<Rightarrow> 'v service \<times> handle list \<Rightarrow> 'v service \<times> handle list" where
  "run env es st = foldl (step env) st es"

text \<open>
  \<^verbatim>\<open>await this.initialize()\<close> as one caller sees it: the call, and then, if the promise
  it received is still pending, the end of that load.
\<close>

definition await_promise :: "'v env \<Rightarrow> nat \<Rightarrow> 'v service \<Rightarrow> (error + unit) \<times> 'v service" where
  "await_promise env p s =
     (case promises s p of
        Fulfilled \<Rightarrow> (Inr (), s)
      | Rejected e \<Rightarrow> (Inl e, s)
      | Pending \<Rightarrow> resume_initializeModel env p s)"

definition await_initialize :: "'v env \<Rightarrow> 'v service \<Rightarrow> (error + unit) \<times> 'v service" where
  "await_initialize env s =
     (case initialize s of
        (Immediate, s') \<Rightarrow> (Inr (), s')
      | (Awaits p, s') \<Rightarrow> await_promise env p s')"

subsection \<open>\<^verbatim>\<open>Promise.all\<close>\<close>

text \<open>
  The order in which the \<open>n\<close> computations of a batch complete: the positions named by the
  environment first (each once, those outside the batch dropped), then the others.
\<close>

definition completion_order :: "nat list \<Rightarrow> nat \<Rightarrow> nat list" where
  "completion_order hint n =
     filter (\<lambda>i. i < n) (remdups hint) @ filter (\<lambda>i. i \<notin> set hint) [0..<n]"

text \<open>
  \<^verbatim>\<open>Promise.all\<close> keeps one slot per promise. When promise \<open>i\<close> is fulfilled its value is
  stored in slot \<open>i\<close>; the first promise that is rejected rejects the whole with its error;
  when every promise is fulfilled the result is the content of the slots.
\<close>

fun promise_all_run :: "nat list \<Rightarrow> (error + 'a) list \<Rightarrow> 'a option list \<Rightarrow> error + 'a option list" where
  "promise_all_run [] rs slots = Inr slots"
| "promise_all_run (i # js) rs slots =
     (case rs ! i of
        Inl e \<Rightarrow> Inl e
      | Inr v \<Rightarrow> promise_all_run js rs (slots[i := Some v]))"

definition Promise_all :: "nat list \<Rightarrow> (error + 'a) list \<Rightarrow> error + 'a list" where
  "Promise_all hint rs =
     (case promise_all_run (completion_order hint (length rs)) rs (replicate (length rs) None) of
        Inl e \<Rightarrow> Inl e
      | Inr slots \<Rightarrow> Inr (List.map_filter (\<lambda>x. x) slots))"

subsection \<open>\<^verbatim>\<open>embedDocuments\<close>\<close>

text \<open>The argument \<^verbatim>\<open>texts\<close>: one string, or an array of strings.\<close>

datatype texts = Single string | Many "string list"

text \<open>\<^verbatim>\<open>Array.isArray(texts) ? texts : [texts]\<close>\<close>

definition textArray_of :: "texts \<Rightarrow> string list" where
  "textArray_of texts = (case texts of Many ts \<Rightarrow> ts | Single t \<Rightarrow> [t])"

definition batchSize :: nat where
  "batchSize = 8"

text \<open>
  The callback given to \<^verbatim>\<open>batch.map\<close>: the pipeline is called on the text, and whatever it
  throws is replaced by a new error. Calling \<^verbatim>\<open>this.model\<close> while it is still \<^verbatim>\<open>null\<close>
  throws a \<^verbatim>\<open>TypeError\<close> inside the same \<^verbatim>\<open>try\<close>.
\<close>

definition embed_text :: "'v service \<Rightarrow> string \<Rightarrow> error + 'v list" where
  "embed_text s text =
     (case (case model s of
              None \<Rightarrow> Inl (JSError ''TypeError'' ''this.model is not a function'')
            | Some m \<Rightarrow> m text) of
        Inl e \<Rightarrow> Inl (new_Error (''Failed to embed text: '' @ message e))
      | Inr data \<Rightarrow> Inr data)"

text \<open>
  The \<^verbatim>\<open>for\<close> loop, from index \<open>i\<close> with the vectors collected so far. Every callback of a
  batch is started (and its text reaches the pipeline) before the batch is awaited; a
  rejected batch ends the loop.
\<close>

function embed_batches ::
  "'v env \<Rightarrow> string list \<Rightarrow> nat \<Rightarrow> 'v list list \<Rightarrow> 'v service \<Rightarrow> (error + 'v list list) \<times> 'v service" where
  "embed_batches env textArray i embeddings s =
     (if i < length textArray then
        (let batch = take batchSize (drop i textArray);
             s' = s\<lparr> inferred := inferred s @ (if model s = None then [] else batch) \<rparr>
         in case Promise_all (completion env i) (map (embed_text s) batch) of
              Inl e \<Rightarrow> (Inl e, s')
            | Inr batchEmbeddings \<Rightarrow>
                embed_batches env textArray (i + batchSize) (embeddings @ batchEmbeddings) s')
      else (Inr embeddings, s))"
  by pat_completeness auto
termination
  by (relation "measure (\<lambda>(env, textArray, i, embeddings, s). length textArray - i)")
     (auto simp: batchSize_def)

text \<open>The body of the \<^verbatim>\<open>try\<close> block, and the method with its \<^verbatim>\<open>catch\<close>.\<close>

definition embedDocuments_body ::
  "'v env \<Rightarrow> texts \<Rightarrow> 'v service \<Rightarrow> (error + 'v list list) \<times> 'v service" where
  "embedDocuments_body env texts s =
     (case await_initialize env s of
        (Inl e, s') \<Rightarrow> (Inl e, s')
      | (Inr u, s') \<Rightarrow>
          (let textArray = textArray_of texts
           in if length textArray = 0
              then (Inl (new_Error ''No texts provided for embedding''), s')
              else embed_batches env textArray 0 [] s'))"

definition embedDocuments ::
  "'v env \<Rightarrow> texts \<Rightarrow> 'v service \<Rightarrow> (error + 'v list list) \<times> 'v service" where
  "embedDocuments env texts s =
     rethrow ''Failed to generate embeddings: '' (embedDocuments_body env texts s)"

text \<open>
  What a caller receives when the \<^verbatim>\<open>throw\<close> for an empty array has passed the
  \<^verbatim>\<open>catch\<close>.
\<close>

definition empty_input_error :: error where
  "empty_input_error = new_Error ''Failed to generate embeddings: No texts provided for embedding''"

subsection \<open>\<^verbatim>\<open>embedQuery\<close> and \<^verbatim>\<open>getEmbeddingDimension\<close>\<close>

text \<open>
  \<^verbatim>\<open>embeddings[0]\<close> of an empty array is \<^verbatim>\<open>undefined\<close>, here \<open>None\<close>.
\<close>

definition embedQuery ::
  "'v env \<Rightarrow> string \<Rightarrow> 'v service \<Rightarrow> (error + 'v list option) \<times> 'v service" where
  "embedQuery env text s =
     rethrow ''Failed to generate query embedding: ''
       (case embedDocuments env (Many [text]) s of
          (Inl e, s') \<Rightarrow> (Inl e, s')
        | (Inr embeddings, s') \<Rightarrow>
            (Inr (case embeddings of [] \<Rightarrow> None | v # rest \<Rightarrow> Some v), s'))"

text \<open>
  \<^verbatim>\<open>if (this._cachedDimension)\<close> holds for a number other than 0, and for neither \<^verbatim>\<open>null\<close>
  nor 0. Reading \<^verbatim>\<open>length\<close> of \<^verbatim>\<open>undefined\<close> throws a \<^verbatim>\<open>TypeError\<close> (the wording of its
  message is the engine's).
\<close>

definition getEmbeddingDimension :: "'v env \<Rightarrow> 'v service \<Rightarrow> (error + nat) \<times> 'v service" where
  "getEmbeddingDimension env s =
     rethrow ''Failed to get embedding dimension: ''
       (case await_initialize env s of
          (Inl e, s1) \<Rightarrow> (Inl e, s1)
        | (Inr u, s1) \<Rightarrow>
            (case cachedDimension s1 of
               Some (Suc d) \<Rightarrow> (Inr (Suc d), s1)
             | _ \<Rightarrow>
                 (case embedQuery env ''test'' s1 of
                    (Inl e, s2) \<Rightarrow> (Inl e, s2)
                  | (Inr None, s2) \<Rightarrow>
                      (Inl (JSError ''TypeError''
                              ''Cannot read properties of undefined (reading length)''), s2)
                  | (Inr (Some testEmbedding), s2) \<Rightarrow>
                      (Inr (length testEmbedding),
                       s2\<lparr> cachedDimension := Some (length testEmbedding) \<rparr>))))"

text \<open>
  The same method cut at the \<^verbatim>\<open>await\<close> of the probe: the part up to and including the
  test of the cache, which either returns or goes on to the probe, and the part from the
  call of \<^verbatim>\<open>embedQuery('test')\<close> to the end. Another caller can run between the two.
\<close>

definition getEmbeddingDimension_until_probe ::
  "'v env \<Rightarrow> 'v service \<Rightarrow> (error + nat option) \<times> 'v service" where
  "getEmbeddingDimension_until_probe env s =
     rethrow ''Failed to get embedding dimension: ''
       (case await_initialize env s of
          (Inl e, s1) \<Rightarrow> (Inl e, s1)
        | (Inr u, s1) \<Rightarrow>
            (case cachedDimension s1 of
               Some (Suc d) \<Rightarrow> (Inr (Some (Suc d)), s1)
             | _ \<Rightarrow> (Inr None, s1)))"

definition getEmbeddingDimension_probe ::
  "'v env \<Rightarrow> 'v service \<Rightarrow> (error + nat) \<times> 'v service" where
  "getEmbeddingDimension_probe env s1 =
     rethrow ''Failed to get embedding dimension: ''
       (case embedQuery env ''test'' s1 of
          (Inl e, s2) \<Rightarrow> (Inl e, s2)
        | (Inr None, s2) \<Rightarrow>
            (Inl (JSError ''TypeError''
                    ''Cannot read properties of undefined (reading length)''), s2)
        | (Inr (Some testEmbedding), s2) \<Rightarrow>
            (Inr (length testEmbedding),
             s2\<lparr> cachedDimension := Some (length testEmbedding) \<rparr>))"

subsection \<open>\<^verbatim>\<open>healthCheck\<close> and \<^verbatim>\<open>getServiceInfo\<close>\<close>

text \<open>The objects these two return; a key that the object literal leaves out is \<open>None\<close>.\<close>

record health =
  status :: string
  health_model :: "string option"
  dimension :: "nat option"
  initialized :: "bool option"
  health_error :: "string option"
  timestamp :: string

record service_info =
  name :: string
  info_model :: string
  info_status :: string
  info_dimension :: "nat option"
  backend :: "string option"
  cost :: "string option"
  rateLimit :: "string option"
  info_error :: "string option"

definition healthCheck :: "'v env \<Rightarrow> 'v service \<Rightarrow> (error + health) \<times> 'v service" where
  "healthCheck env s =
     (case (case await_initialize env s of
              (Inl e, s1) \<Rightarrow> (Inl e, s1)
            | (Inr u, s1) \<Rightarrow>
                (case getEmbeddingDimension env s1 of
                   (Inl e, s2) \<Rightarrow> (Inl e, s2)
                 | (Inr d, s2) \<Rightarrow>
                     (Inr \<lparr> status = ''healthy'', health_model = Some (modelName s2),
                            dimension = Some d, initialized = Some (isInitialized s2),
                            health_error = None, timestamp = clock env \<rparr>, s2))) of
        (Inl e, s') \<Rightarrow>
          (Inr \<lparr> status = ''unhealthy'', health_model = None, dimension = None,
                 initialized = None, health_error = Some (message e),
                 timestamp = clock env \<rparr>, s')
      | (Inr h, s') \<Rightarrow> (Inr h, s'))"

definition getServiceInfo :: "'v env \<Rightarrow> 'v service \<Rightarrow> (error + service_info) \<times> 'v service" where
  "getServiceInfo env s =
     (case healthCheck env s of
        (Inr h, s') \<Rightarrow>
          (Inr \<lparr> name = ''Transformers.js Embeddings'', info_model = modelName s',
                 info_status = status h, info_dimension = dimension h,
                 backend = Some ''local'', cost = Some ''free'', rateLimit = Some ''none'',
                 info_error = None \<rparr>, s')
      | (Inl e, s') \<Rightarrow>
          (Inr \<lparr> name = ''Transformers.js Embeddings'', info_model = modelName s',
                 info_status = ''error'', info_dimension = None,
                 backend = None, cost = None, rateLimit = None,
                 info_error = Some (message e) \<rparr>, s'))"

subsection \<open>Consistent states\<close>

text \<open>
  What the methods below rely on, and keep: a ready service has a pipeline; a fulfilled
  \<open>initializationPromise\<close> means ready; a rejected one carries an error made by the
  \<^verbatim>\<open>catch\<close> of \<^verbatim>\<open>_initializeModel\<close>. The constructor's state is consistent.
\<close>

definition starts_with :: "string \<Rightarrow> string \<Rightarrow> bool" where
  "starts_with p xs = (take (length p) xs = p)"

definition consistent :: "'v service \<Rightarrow> bool" where
  "consistent s =
     ((isInitialized s \<longrightarrow> model s \<noteq> None) \<and>
      (case initializationPromise s of
         None \<Rightarrow> True
       | Some p \<Rightarrow>
           (case promises s p of
              Pending \<Rightarrow> True
            | Fulfilled \<Rightarrow> isInitialized s
            | Rejected e \<Rightarrow>
                errname e = ''Error'' \<and>
                starts_with ''Failed to initialize embedding model: '' (message e))))"

text \<open>
  What holds of every state that an execution reaches from the constructor: at most one
  promise exists, at address 0, and \<open>initializationPromise\<close> refers to it from the first
  call on; \<open>isInitialized\<close> is set exactly when that promise is fulfilled; a rejected promise
  carries the wrapped error of the first load; a caller holds either that promise or an
  immediate result handed out in the ready state.
\<close>

definition init_inv :: "'v env \<Rightarrow> string \<Rightarrow> 'v service \<times> handle list \<Rightarrow> bool" where
  "init_inv env nm st =
     (case st of (s, hs) \<Rightarrow>
        modelName s = nm \<and> loads s \<le> 1 \<and>
        (loads s = 0 \<longrightarrow> initializationPromise s = None \<and> hs = []) \<and>
        (loads s = 1 \<longrightarrow> initializationPromise s = Some 0) \<and>
        (isInitialized s \<longleftrightarrow> loads s = 1 \<and> promises s 0 = Fulfilled) \<and>
        (isInitialized s \<longrightarrow> (\<exists>m. pipeline_load env 0 nm = Inr m \<and> model s = Some m)) \<and>
        (\<not> isInitialized s \<longrightarrow> model s = None) \<and>
        (\<forall>e. loads s = 1 \<and> promises s 0 = Rejected e \<longrightarrow>
           (\<exists>e0. pipeline_load env 0 nm = Inl e0 \<and>
                 e = new_Error (''Failed to initialize embedding model: '' @ message e0))) \<and>
        (\<forall>h \<in> set hs. h = Awaits 0 \<or> (h = Immediate \<and> isInitialized s)))"

subsection \<open>Concrete environments\<close>

text \<open>
  A pipeline that throws on two texts and one that returns empty vectors; an environment in
  which every load succeeds, one in which the first load fails and any later one would
  succeed, one whose pipeline returns empty vectors; an input longer than a batch; two
  executions of concurrent callers.
\<close>

definition example_pipeline :: "nat pipeline" where
  "example_pipeline t =
     (if t = ''bad'' \<or> t = ''worse'' then Inl (JSError ''RangeError'' ''boom'')
      else Inr [length t, 1])"

definition hollow_pipeline :: "nat pipeline" where
  "hollow_pipeline t = Inr []"

definition steady_env :: "nat env" where
  "steady_env = \<lparr> pipeline_load = (\<lambda>k n. Inr example_pipeline), completion = (\<lambda>i. [3, 1]), clock = ''2025-01-01T00:00:00.000Z'' \<rparr>"

definition flaky_env :: "nat env" where
  "flaky_env = \<lparr> pipeline_load = (\<lambda>k n. if k = 0 then Inl (JSError ''TypeError'' ''fetch failed'') else Inr example_pipeline),
       completion = (\<lambda>i. []), clock = ''2025-01-01T00:00:00.000Z'' \<rparr>"

definition hollow_env :: "nat env" where
  "hollow_env = \<lparr> pipeline_load = (\<lambda>k n. Inr hollow_pipeline), completion = (\<lambda>i. []),
       clock = ''2025-01-01T00:00:00.000Z'' \<rparr>"

definition nine_texts :: texts where
  "nine_texts = Many [''a'', ''bb'', ''ccc'', ''dddd'', ''a'', ''bb'', ''ccc'', ''dddd'', ''eeeee'']"

definition three_callers :: "event list" where
  "three_callers = [CallInitialize, CallInitialize, LoadSettles 0, CallInitialize]"

definition retry_trace :: "event list" where
  "retry_trace = [CallInitialize, LoadSettles 0, CallInitialize, LoadSettles 1]"

text \<open>
  Two callers of \<^verbatim>\<open>getEmbeddingDimension\<close> on a new service: the state when the first has
  passed the test of the cache, when the second has passed it too, and when the probe of the
  first has completed.
\<close>

definition first_caller_waiting :: "nat service" where
  "first_caller_waiting = snd (getEmbeddingDimension_until_probe steady_env (constructor ''M''))"

definition both_callers_waiting :: "nat service" where
  "both_callers_waiting = snd (getEmbeddingDimension_until_probe steady_env first_caller_waiting)"

definition first_caller_done :: "nat service" where
  "first_caller_done = snd (getEmbeddingDimension_probe steady_env both_callers_waiting)"

section \<open>Properties of the parts\<close>

subsection \<open>\<^verbatim>\<open>Promise.all\<close> keeps positions\<close>

lemma completion_order_set: "set (completion_order hint n) = {..<n}"
  by (auto simp: completion_order_def)

lemma completion_order_distinct: "distinct (completion_order hint n)"
  by (auto simp: completion_order_def)

lemma promise_all_run_Inr:
  "promise_all_run js rs slots = Inr slots' \<Longrightarrow> \<forall>i \<in> set js. i < length slots \<Longrightarrow>
     length slots' = length slots \<and>
     (\<forall>j < length slots. slots' ! j = (if j \<in> set js then (case rs ! j of Inr v \<Rightarrow> Some v | Inl e \<Rightarrow> None) else slots ! j)) \<and>
     (\<forall>i \<in> set js. \<exists>v. rs ! i = Inr v)"
proof (induction js arbitrary: slots)
  case Nil
  then show ?case by simp
next
  case (Cons i js)
  from Cons.prems(1) obtain v where v: "rs ! i = Inr v"
    and rest: "promise_all_run js rs (slots[i := Some v]) = Inr slots'"
    by (auto split: sum.splits)
  from Cons.prems(2) have "\<forall>k \<in> set js. k < length (slots[i := Some v])" by simp
  from Cons.IH [OF rest this]
  have ih: "length slots' = length slots"
    "\<forall>j < length slots. slots' ! j = (if j \<in> set js then (case rs ! j of Inr v \<Rightarrow> Some v | Inl e \<Rightarrow> None) else (slots[i := Some v]) ! j)"
    "\<forall>k \<in> set js. \<exists>v. rs ! k = Inr v"
    by simp_all
  from Cons.prems(2) have il: "i < length slots" by simp
  show ?case using ih v il by (auto simp: nth_list_update)
qed

lemma promise_all_run_Inl:
  "promise_all_run js rs slots = Inl e \<Longrightarrow> \<exists>i \<in> set js. rs ! i = Inl e"
  by (induction js arbitrary: slots) (auto split: sum.splits)

lemma map_filter_Some: "List.map_filter (\<lambda>x. x) (map Some vs) = vs"
  by (induction vs) (simp_all add: List.map_filter_simps)

lemma Promise_all_Inr: "Promise_all hint rs = Inr vs \<Longrightarrow> rs = map Inr vs"
proof -
  assume a: "Promise_all hint rs = Inr vs"
  let ?n = "length rs"
  from a obtain slots where
    run: "promise_all_run (completion_order hint ?n) rs (replicate ?n None) = Inr slots"
    and vs: "vs = List.map_filter (\<lambda>x. x) slots"
    by (auto simp: Promise_all_def split: sum.splits)
  have "\<forall>i \<in> set (completion_order hint ?n). i < length (replicate ?n (None :: 'a option))"
    by (simp add: completion_order_set)
  from promise_all_run_Inr [OF run this]
  have len: "length slots = ?n"
    and nth: "\<forall>j < ?n. slots ! j = (case rs ! j of Inr v \<Rightarrow> Some v | Inl e \<Rightarrow> None)"
    and ok: "\<forall>i < ?n. \<exists>v. rs ! i = Inr v"
    by (simp_all add: completion_order_set)
  have "map Some (map projr rs) = slots"
  proof (rule nth_equalityI)
    show "length (map Some (map projr rs)) = length slots" using len by simp
  next
    fix i assume "i < length (map Some (map projr rs))"
    then have i: "i < ?n" by simp
    with ok obtain v where "rs ! i = Inr v" by blast
    with nth i show "map Some (map projr rs) ! i = slots ! i" by simp
  qed
  then have "List.map_filter (\<lambda>x. x) slots = map projr rs"
    using map_filter_Some [of "map projr rs"] by simp
  with vs have vs': "vs = map projr rs" by simp
  show ?thesis
  proof (rule nth_equalityI)
    show "length rs = length (map Inr vs)" using vs' by simp
  next
    fix i assume i: "i < length rs"
    with ok obtain v where "rs ! i = Inr v" by blast
    with vs' i show "rs ! i = map Inr vs ! i" by simp
  qed
qed

lemma Promise_all_Inl: "Promise_all hint rs = Inl e \<Longrightarrow> Inl e \<in> set rs"
proof -
  assume "Promise_all hint rs = Inl e"
  then have "promise_all_run (completion_order hint (length rs)) rs (replicate (length rs) None) = Inl e"
    by (auto simp: Promise_all_def split: sum.splits)
  then obtain i where "i \<in> set (completion_order hint (length rs))" "rs ! i = Inl e"
    by (blast dest: promise_all_run_Inl)
  then show ?thesis using nth_mem [of i rs] by (simp add: completion_order_set)
qed

lemma Promise_all_map_Inr: "Promise_all hint (map Inr vs) = Inr vs"
proof (cases "Promise_all hint (map Inr vs)")
  case (Inl e)
  then have "Inl e \<in> set (map Inr vs)" by (rule Promise_all_Inl)
  then show ?thesis by auto
next
  case (Inr ws)
  from Promise_all_Inr [OF Inr] have "vs = ws" by (simp add: inj_map_eq_map)
  with Inr show ?thesis by simp
qed

subsection \<open>The batch loop\<close>

declare embed_batches.simps [simp del]

lemma embed_text_inferred [simp]: "embed_text (s\<lparr> inferred := tr \<rparr>) = embed_text s"
  by (simp add: embed_text_def fun_eq_iff)

lemma batch_split: "take batchSize (drop i ts) @ drop (i + batchSize) ts = drop i ts"
  by (metis add.commute append_take_drop_id drop_drop)

lemma embed_batches_Inr:
  "embed_batches env ts i acc s = (Inr vs, s') \<Longrightarrow>
     \<exists>ws. vs = acc @ ws \<and> map (embed_text s) (drop i ts) = map Inr ws \<and>
          s' = s\<lparr> inferred := inferred s @ (if model s = None then [] else drop i ts) \<rparr>"
proof (induction env ts i acc s rule: embed_batches.induct)
  case (1 env ts i acc s)
  show ?case
  proof (cases "i < length ts")
    case False
    with "1.prems" show ?thesis by (simp add: embed_batches.simps)
  next
    case True
    define batch where "batch = take batchSize (drop i ts)"
    define s1 where "s1 = s\<lparr> inferred := inferred s @ (if model s = None then [] else batch) \<rparr>"
    from "1.prems" True obtain be where
      pa: "Promise_all (completion env i) (map (embed_text s) batch) = Inr be"
      and rec: "embed_batches env ts (i + batchSize) (acc @ be) s1 = (Inr vs, s')"
      unfolding batch_def s1_def
      by (subst (asm) embed_batches.simps) (auto simp: Let_def split: sum.splits)
    from "1.IH" [OF True batch_def s1_def pa rec]
    obtain ws where ws: "vs = (acc @ be) @ ws"
      "map (embed_text s1) (drop (i + batchSize) ts) = map Inr ws"
      "s' = s1\<lparr> inferred := inferred s1 @ (if model s1 = None then [] else drop (i + batchSize) ts) \<rparr>"
      by blast
    from pa have b: "map (embed_text s) batch = map Inr be" by (rule Promise_all_Inr)
    have e: "embed_text s1 = embed_text s" by (simp add: s1_def)
    have "map (embed_text s) (drop i ts) = map (embed_text s) (batch @ drop (i + batchSize) ts)"
      by (simp only: batch_def batch_split)
    also have "\<dots> = map Inr (be @ ws)" using b ws(2) e by simp
    finally have m: "map (embed_text s) (drop i ts) = map Inr (be @ ws)" .
    have st: "s' = s\<lparr> inferred := inferred s @ (if model s = None then [] else drop i ts) \<rparr>"
      using ws(3) batch_split [of i ts] by (auto simp: s1_def batch_def)
    from ws(1) m st show ?thesis by auto
  qed
qed

lemma embed_batches_Inl:
  "embed_batches env ts i acc s = (Inl e, s') \<Longrightarrow> \<exists>t \<in> set (drop i ts). embed_text s t = Inl e"
proof (induction env ts i acc s rule: embed_batches.induct)
  case (1 env ts i acc s)
  show ?case
  proof (cases "i < length ts")
    case False
    with "1.prems" show ?thesis by (simp add: embed_batches.simps)
  next
    case True
    define batch where "batch = take batchSize (drop i ts)"
    define s1 where "s1 = s\<lparr> inferred := inferred s @ (if model s = None then [] else batch) \<rparr>"
    have sub: "set batch \<subseteq> set (drop i ts)" "set (drop (i + batchSize) ts) \<subseteq> set (drop i ts)"
      using batch_split [of i ts] unfolding batch_def by (metis Un_upper1 set_append, metis Un_upper2 set_append)
    show ?thesis
    proof (cases "Promise_all (completion env i) (map (embed_text s) batch)")
      case (Inl e')
      with "1.prems" True have "e' = e"
        unfolding batch_def by (subst (asm) embed_batches.simps) (simp add: Let_def)
      with Inl have "Promise_all (completion env i) (map (embed_text s) batch) = Inl e" by simp
      then have "Inl e \<in> set (map (embed_text s) batch)" by (rule Promise_all_Inl)
      with sub(1) show ?thesis by auto
    next
      case (Inr be)
      with "1.prems" True have rec: "embed_batches env ts (i + batchSize) (acc @ be) s1 = (Inl e, s')"
        unfolding batch_def s1_def by (subst (asm) embed_batches.simps) (simp add: Let_def)
      from "1.IH" [OF True batch_def s1_def Inr rec]
      obtain t where "t \<in> set (drop (i + batchSize) ts)" "embed_text s1 t = Inl e" by blast
      with sub(2) show ?thesis by (auto simp: s1_def)
    qed
  qed
qed

lemma embed_batches_state:
  "\<exists>tr. snd (embed_batches env ts i acc s) = s\<lparr> inferred := inferred s @ tr \<rparr> \<and> (model s = None \<longrightarrow> tr = [])"
proof (induction env ts i acc s rule: embed_batches.induct)
  case (1 env ts i acc s)
  show ?case
  proof (cases "i < length ts")
    case False
    then have "snd (embed_batches env ts i acc s) = s\<lparr> inferred := inferred s @ [] \<rparr> \<and>
        (model s = None \<longrightarrow> ([] :: string list) = [])"
      by (simp add: embed_batches.simps)
    then show ?thesis by (rule exI)
  next
    case True
    define batch where "batch = take batchSize (drop i ts)"
    define s1 where "s1 = s\<lparr> inferred := inferred s @ (if model s = None then [] else batch) \<rparr>"
    show ?thesis
    proof (cases "Promise_all (completion env i) (map (embed_text s) batch)")
      case (Inl e')
      with True have "snd (embed_batches env ts i acc s) = s1"
        unfolding batch_def s1_def by (subst embed_batches.simps) (simp add: Let_def)
      then have "snd (embed_batches env ts i acc s)
          = s\<lparr> inferred := inferred s @ (if model s = None then [] else batch) \<rparr> \<and>
          (model s = None \<longrightarrow> (if model s = None then [] else batch) = [])"
        by (simp add: s1_def)
      then show ?thesis by (rule exI)
    next
      case (Inr be)
      with True have "embed_batches env ts i acc s = embed_batches env ts (i + batchSize) (acc @ be) s1"
        unfolding batch_def s1_def by (subst embed_batches.simps) (simp add: Let_def)
      then have eq: "snd (embed_batches env ts i acc s) = snd (embed_batches env ts (i + batchSize) (acc @ be) s1)"
        by simp
      from "1.IH" [OF True batch_def s1_def Inr]
      obtain tr where tr: "snd (embed_batches env ts (i + batchSize) (acc @ be) s1) = s1\<lparr> inferred := inferred s1 @ tr \<rparr>"
        "model s1 = None \<longrightarrow> tr = []" by (elim exE conjE)
      have "snd (embed_batches env ts i acc s)
          = s\<lparr> inferred := inferred s @ ((if model s = None then [] else batch) @ tr) \<rparr> \<and>
          (model s = None \<longrightarrow> (if model s = None then [] else batch) @ tr = [])"
        using eq tr by (simp add: s1_def)
      then show ?thesis by (rule exI)
    qed
  qed
qed

subsection \<open>Awaiting \<^verbatim>\<open>initialize\<close>\<close>

lemma starts_with_append [simp]: "starts_with p (p @ m)"
  by (simp add: starts_with_def)

lemma starts_with_iff: "starts_with p xs \<longleftrightarrow> (\<exists>m. xs = p @ m)"
  unfolding starts_with_def by (metis append_eq_conv_conj)

lemmas await_defs = await_initialize_def await_promise_def initialize_def initializeModel_def
  resume_initializeModel_def initializeModel_body_def rethrow_def

lemma consistent_constructor: "consistent (constructor nm)"
  by (simp add: consistent_def constructor_def)

lemma await_initialize_frame:
  "await_initialize env s = (r, s1) \<Longrightarrow>
     modelName s1 = modelName s \<and> cachedDimension s1 = cachedDimension s \<and> inferred s1 = inferred s"
  by (auto simp: await_defs Let_def split: if_splits option.splits promise.splits sum.splits)

lemma await_initialize_again:
  "await_initialize env s = (Inr u, s1) \<Longrightarrow> await_initialize env' s1 = (Inr (), s1)"
  by (auto simp: await_defs Let_def split: if_splits option.splits promise.splits sum.splits)

lemma await_initialize_consistent:
  "consistent s \<Longrightarrow> await_initialize env s = (r, s1) \<Longrightarrow> consistent s1"
  by (auto simp: await_defs consistent_def new_Error_def starts_with_def Let_def
           split: if_splits option.splits promise.splits sum.splits)

lemma await_initialize_ready:
  "consistent s \<Longrightarrow> await_initialize env s = (Inr u, s1) \<Longrightarrow>
     isInitialized s1 \<and> (\<exists>m. model s1 = Some m)"
  by (auto simp: await_defs consistent_def Let_def
           split: if_splits option.splits promise.splits sum.splits)

lemma await_initialize_error:
  "consistent s \<Longrightarrow> await_initialize env s = (Inl e, s1) \<Longrightarrow>
     errname e = ''Error'' \<and> starts_with ''Failed to initialize embedding model: '' (message e)"
  by (auto simp: await_defs consistent_def new_Error_def starts_with_def Let_def
           split: if_splits option.splits promise.splits sum.splits)

subsection \<open>Outcomes of \<^verbatim>\<open>embedDocuments\<close>\<close>

lemma embedDocuments_body_cases:
  "embedDocuments_body env texts s = (r, s') \<Longrightarrow>
     (\<exists>e. await_initialize env s = (Inl e, s') \<and> r = Inl e) \<or>
     (\<exists>s1. await_initialize env s = (Inr (), s1) \<and>
        ((textArray_of texts = [] \<and> r = Inl (new_Error ''No texts provided for embedding'') \<and> s' = s1) \<or>
         (textArray_of texts \<noteq> [] \<and> embed_batches env (textArray_of texts) 0 [] s1 = (r, s'))))"
  by (auto simp: embedDocuments_body_def Let_def split: prod.splits sum.splits if_splits)

lemma embedDocuments_Inr_body:
  "embedDocuments env texts s = (Inr vs, s') \<longleftrightarrow> embedDocuments_body env texts s = (Inr vs, s')"
  by (auto simp: embedDocuments_def rethrow_def split: prod.splits sum.splits)

lemma embedDocuments_Inl_body:
  "embedDocuments env texts s = (Inl e, s') \<longleftrightarrow>
     (\<exists>e0. embedDocuments_body env texts s = (Inl e0, s') \<and>
           e = new_Error (''Failed to generate embeddings: '' @ message e0))"
  by (auto simp: embedDocuments_def rethrow_def split: prod.splits sum.splits)

lemma embed_text_Inr: "embed_text s t = Inr v \<longleftrightarrow> (\<exists>m. model s = Some m \<and> m t = Inr v)"
  by (auto simp: embed_text_def split: option.splits sum.splits)

lemma embed_text_Inl:
  "embed_text s t = Inl e \<longleftrightarrow>
     (model s = None \<and> e = new_Error ''Failed to embed text: this.model is not a function'') \<or>
     (\<exists>m e0. model s = Some m \<and> m t = Inl e0 \<and> e = new_Error (''Failed to embed text: '' @ message e0))"
  by (auto simp: embed_text_def split: option.splits sum.splits)

lemma embedDocuments_success:
  "embedDocuments env texts s = (Inr vs, s') \<Longrightarrow>
     \<exists>s1 m. await_initialize env s = (Inr (), s1) \<and> model s1 = Some m \<and>
       textArray_of texts \<noteq> [] \<and> map m (textArray_of texts) = map Inr vs \<and>
       s' = s1\<lparr> inferred := inferred s1 @ textArray_of texts \<rparr>"
proof -
  assume a: "embedDocuments env texts s = (Inr vs, s')"
  let ?ts = "textArray_of texts"
  from a have "embedDocuments_body env texts s = (Inr vs, s')" by (simp add: embedDocuments_Inr_body)
  from embedDocuments_body_cases [OF this]
  obtain s1 where i: "await_initialize env s = (Inr (), s1)" and ne: "?ts \<noteq> []"
    and eb: "embed_batches env ?ts 0 [] s1 = (Inr vs, s')" by auto
  from embed_batches_Inr [OF eb]
  have m: "map (embed_text s1) ?ts = map Inr vs"
    and st: "s' = s1\<lparr> inferred := inferred s1 @ (if model s1 = None then [] else ?ts) \<rparr>"
    by auto
  from ne obtain t ts' where ts: "?ts = t # ts'" by (cases ?ts) auto
  with m obtain v where "embed_text s1 t = Inr v" by (cases vs) auto
  then obtain md where md: "model s1 = Some md" by (auto simp: embed_text_Inr)
  have "map md ?ts = map Inr vs"
  proof (rule nth_equalityI)
    from m show "length (map md ?ts) = length (map Inr vs)" by (metis length_map)
  next
    fix i assume "i < length (map md ?ts)"
    then have il: "i < length ?ts" by simp
    from m have lv: "length vs = length ?ts" by (metis length_map)
    from m il have "embed_text s1 (?ts ! i) = Inr (vs ! i)"
      by (metis lv nth_map)
    with md have "md (?ts ! i) = Inr (vs ! i)" by (simp add: embed_text_Inr)
    with il lv show "map md ?ts ! i = map Inr vs ! i" by simp
  qed
  with i md ne st show ?thesis by auto
qed

lemma embedDocuments_total_success:
  assumes i: "await_initialize env s = (Inr (), s1)" and md: "model s1 = Some m"
    and ne: "textArray_of texts \<noteq> []" and ok: "\<forall>t \<in> set (textArray_of texts). \<exists>v. m t = Inr v"
  shows "\<exists>vs s'. embedDocuments env texts s = (Inr vs, s')"
proof -
  let ?ts = "textArray_of texts"
  from i ne have b: "embedDocuments_body env texts s = embed_batches env ?ts 0 [] s1"
    by (simp add: embedDocuments_body_def)
  obtain r s' where r: "embed_batches env ?ts 0 [] s1 = (r, s')" by (cases "embed_batches env ?ts 0 [] s1")
  show ?thesis
  proof (cases r)
    case (Inl e)
    with r obtain t where "t \<in> set ?ts" "embed_text s1 t = Inl e"
      using embed_batches_Inl [of env ?ts 0 "[]" s1 e s'] by auto
    with md ok show ?thesis by (auto simp: embed_text_Inl)
  next
    case (Inr vs)
    with r b show ?thesis by (simp add: embedDocuments_Inr_body)
  qed
qed

lemma embedDocuments_failure:
  "embedDocuments env texts s = (Inl e, s') \<Longrightarrow>
     errname e = ''Error'' \<and>
     ((\<exists>e0. await_initialize env s = (Inl e0, s') \<and>
            message e = ''Failed to generate embeddings: '' @ message e0) \<or>
      (\<exists>s1. await_initialize env s = (Inr (), s1) \<and>
         ((textArray_of texts = [] \<and> s' = s1 \<and>
           message e = ''Failed to generate embeddings: No texts provided for embedding'') \<or>
          (textArray_of texts \<noteq> [] \<and> model s1 = None \<and>
           message e = ''Failed to generate embeddings: Failed to embed text: this.model is not a function'') \<or>
          (\<exists>m t e0. model s1 = Some m \<and> t \<in> set (textArray_of texts) \<and> m t = Inl e0 \<and>
             message e = ''Failed to generate embeddings: Failed to embed text: '' @ message e0))))"
proof -
  assume a: "embedDocuments env texts s = (Inl e, s')"
  then obtain e1 where b: "embedDocuments_body env texts s = (Inl e1, s')"
    and e: "e = new_Error (''Failed to generate embeddings: '' @ message e1)"
    by (auto simp: embedDocuments_Inl_body)
  from e have n: "errname e = ''Error''" and msg: "message e = ''Failed to generate embeddings: '' @ message e1"
    by (simp_all add: new_Error_def)
  from embedDocuments_body_cases [OF b]
  consider (init) "await_initialize env s = (Inl e1, s')"
    | (empty) s1 where "await_initialize env s = (Inr (), s1)" "textArray_of texts = []"
        "e1 = new_Error ''No texts provided for embedding''" "s' = s1"
    | (batch) s1 where "await_initialize env s = (Inr (), s1)" "textArray_of texts \<noteq> []"
        "embed_batches env (textArray_of texts) 0 [] s1 = (Inl e1, s')"
    by auto
  then show ?thesis
  proof cases
    case init
    with n msg show ?thesis by auto
  next
    case empty
    with n msg show ?thesis by (auto simp: new_Error_def)
  next
    case batch
    from embed_batches_Inl [OF batch(3)]
    obtain t where t: "t \<in> set (textArray_of texts)" "embed_text s1 t = Inl e1" by auto
    from t(2) consider "model s1 = None" "e1 = new_Error ''Failed to embed text: this.model is not a function''"
      | m e0 where "model s1 = Some m" "m t = Inl e0" "e1 = new_Error (''Failed to embed text: '' @ message e0)"
      by (auto simp: embed_text_Inl)
    then show ?thesis
    proof cases
      case 1
      with n msg batch show ?thesis by (auto simp: new_Error_def)
    next
      case 2
      with n msg batch t(1) show ?thesis by (auto simp: new_Error_def)
    qed
  qed
qed

section \<open>Initialization\<close>

lemmas init_defs = run_def initialize_def initializeModel_def resume_initializeModel_def
  initializeModel_body_def rethrow_def constructor_def observed_def new_Error_def

lemma init_inv_constructor: "init_inv env nm (constructor nm, [])"
  by (simp add: init_inv_def constructor_def)

lemma init_inv_step: "init_inv env nm st \<Longrightarrow> init_inv env nm (step env st ev)"
proof (cases st)
  case (Pair s hs)
  assume inv: "init_inv env nm st"
  show ?thesis
  proof (cases ev)
    case CallInitialize
    with inv Pair show ?thesis
      by (auto simp: init_inv_def initialize_def initializeModel_def split: option.splits)
  next
    case (LoadSettles p)
    show ?thesis
    proof (cases "p < loads s \<and> promises s p = Pending")
      case False
      with inv Pair LoadSettles show ?thesis by auto
    next
      case True
      with inv Pair have p0: "p = 0" and l1: "loads s = 1"
        by (auto simp: init_inv_def)
      with True inv Pair LoadSettles show ?thesis
        by (auto simp: init_inv_def resume_initializeModel_def initializeModel_body_def rethrow_def
                 split: sum.splits)
    qed
  qed
qed

lemma init_inv_run: "init_inv env nm st \<Longrightarrow> init_inv env nm (run env es st)"
  unfolding run_def by (induction es arbitrary: st) (simp_all add: init_inv_step)


text \<open>
  C2. Whatever the number of callers of \<^verbatim>\<open>initialize()\<close> and however their calls
  interleave with the end of the load, at most one load is started; every caller holds the
  one shared promise (or, once the service is ready, an immediately fulfilled one), so all
  callers observe the same outcome; and in the ready state \<^verbatim>\<open>initialize()\<close> returns at
  once and changes nothing, so it starts no load.
\<close>

theorem initialize_single_flight:
  "run env es (constructor nm, []) = (s, hs) \<Longrightarrow>
     loads s \<le> 1 \<and>
     (\<forall>h \<in> set hs. h = Awaits 0 \<or> (h = Immediate \<and> isInitialized s)) \<and>
     (\<forall>h \<in> set hs. \<forall>h' \<in> set hs. observed s h = observed s h') \<and>
     (isInitialized s \<longrightarrow> initialize s = (Immediate, s))"
proof -
  assume r: "run env es (constructor nm, []) = (s, hs)"
  have "init_inv env nm (run env es (constructor nm, []))"
    by (rule init_inv_run) (rule init_inv_constructor)
  with r have inv: "init_inv env nm (s, hs)" by simp
  from inv have a: "loads s \<le> 1" by (simp add: init_inv_def)
  from inv have b: "\<forall>h \<in> set hs. h = Awaits 0 \<or> (h = Immediate \<and> isInitialized s)"
    by (auto simp: init_inv_def)
  from inv have f: "isInitialized s \<Longrightarrow> promises s 0 = Fulfilled"
    by (auto simp: init_inv_def)
  have c: "\<forall>h \<in> set hs. \<forall>h' \<in> set hs. observed s h = observed s h'"
  proof (intro ballI)
    fix h h' assume "h \<in> set hs" "h' \<in> set hs"
    with b have "h = Awaits 0 \<or> (h = Immediate \<and> isInitialized s)"
      and "h' = Awaits 0 \<or> (h' = Immediate \<and> isInitialized s)" by blast+
    with f show "observed s h = observed s h'" by (auto simp: observed_def)
  qed
  have d: "isInitialized s \<longrightarrow> initialize s = (Immediate, s)"
    by (simp add: initialize_def)
  from a b c d show ?thesis by blast
qed

theorem initialize_single_flight_witness:
  "snd (run steady_env three_callers (constructor ''M'', [])) = [Awaits 0, Awaits 0, Immediate] \<and>
   isInitialized (fst (run steady_env three_callers (constructor ''M'', []))) \<and>
   loads (fst (run steady_env three_callers (constructor ''M'', []))) \<le> 1 \<and>
   observed (fst (run steady_env three_callers (constructor ''M'', []))) (Awaits 0)
     = observed (fst (run steady_env three_callers (constructor ''M'', []))) Immediate \<and>
   initialize (fst (run steady_env three_callers (constructor ''M'', [])))
     = (Immediate, fst (run steady_env three_callers (constructor ''M'', [])))"
  using initialize_single_flight [of steady_env three_callers "''M''"
      "fst (run steady_env three_callers (constructor ''M'', []))"
      "snd (run steady_env three_callers (constructor ''M'', []))"]
  by (simp add: init_defs steady_env_def three_callers_def)

text \<open>
  C1, as the code has it. When the first load fails, the service never becomes ready and
  no second load is ever started: every caller, before and after the failure, holds the
  promise of that one attempt and observes it pending or rejected with the wrapped error;
  \<open>initializationPromise\<close> keeps referring to it. Once it is rejected, awaiting
  \<^verbatim>\<open>initialize()\<close> fails with that same error and leaves the state as it is, in every
  environment, also one whose next load would succeed.
\<close>

theorem failed_initialize_not_retried:
  "pipeline_load env 0 nm = Inl e0 \<Longrightarrow> run env es (constructor nm, []) = (s, hs) \<Longrightarrow>
     \<not> isInitialized s \<and> loads s \<le> 1 \<and>
     (\<forall>h \<in> set hs. h = Awaits 0 \<and> initializationPromise s = Some 0 \<and>
        (observed s h = Pending \<or>
         observed s h = Rejected (new_Error (''Failed to initialize embedding model: '' @ message e0)))) \<and>
     (\<forall>e. loads s = 1 \<and> promises s 0 = Rejected e \<longrightarrow>
        e = new_Error (''Failed to initialize embedding model: '' @ message e0) \<and>
        (\<forall>env'. await_initialize env' s = (Inl e, s)))"
proof -
  assume l: "pipeline_load env 0 nm = Inl e0" and r: "run env es (constructor nm, []) = (s, hs)"
  have "init_inv env nm (run env es (constructor nm, []))"
    by (rule init_inv_run) (rule init_inv_constructor)
  with r have inv: "init_inv env nm (s, hs)" by simp
  from inv l have ni: "\<not> isInitialized s" by (auto simp: init_inv_def)
  from inv have a: "loads s \<le> 1" by (simp add: init_inv_def)
  from inv ni have hs: "\<forall>h \<in> set hs. h = Awaits 0" by (auto simp: init_inv_def)
  from inv have ip: "hs \<noteq> [] \<Longrightarrow> loads s = 1 \<and> initializationPromise s = Some 0"
    by (cases "loads s = 0") (auto simp: init_inv_def)
  from inv l have rej: "\<And>e. loads s = 1 \<Longrightarrow> promises s 0 = Rejected e \<Longrightarrow>
      e = new_Error (''Failed to initialize embedding model: '' @ message e0)"
    by (auto simp: init_inv_def)
  from inv ni have nf: "loads s = 1 \<Longrightarrow> promises s 0 \<noteq> Fulfilled" by (auto simp: init_inv_def)
  have obs: "\<forall>h \<in> set hs. h = Awaits 0 \<and> initializationPromise s = Some 0 \<and>
        (observed s h = Pending \<or>
         observed s h = Rejected (new_Error (''Failed to initialize embedding model: '' @ message e0)))"
  proof
    fix h assume h: "h \<in> set hs"
    then have ne: "hs \<noteq> []" by auto
    from hs h have h0: "h = Awaits 0" by blast
    from ip ne have l1: "loads s = 1" and i0: "initializationPromise s = Some 0" by simp_all
    show "h = Awaits 0 \<and> initializationPromise s = Some 0 \<and>
        (observed s h = Pending \<or>
         observed s h = Rejected (new_Error (''Failed to initialize embedding model: '' @ message e0)))"
      using h0 i0 rej [OF l1] nf [OF l1] by (cases "promises s 0") (auto simp: observed_def)
  qed
  have aw: "\<forall>e. loads s = 1 \<and> promises s 0 = Rejected e \<longrightarrow>
        e = new_Error (''Failed to initialize embedding model: '' @ message e0) \<and>
        (\<forall>env'. await_initialize env' s = (Inl e, s))"
  proof (intro allI impI)
    fix e assume h: "loads s = 1 \<and> promises s 0 = Rejected e"
    with inv have i0: "initializationPromise s = Some 0" by (simp add: init_inv_def)
    from h ni i0 have "\<forall>env'. await_initialize env' s = (Inl e, s)"
      by (simp add: await_initialize_def initialize_def await_promise_def)
    with rej h show "e = new_Error (''Failed to initialize embedding model: '' @ message e0) \<and>
        (\<forall>env'. await_initialize env' s = (Inl e, s))" by blast
  qed
  from ni a obs aw show ?thesis by blast
qed

theorem failed_initialize_not_retried_witness:
  "pipeline_load flaky_env 0 ''M'' = Inl (JSError ''TypeError'' ''fetch failed'') \<and>
   snd (run flaky_env retry_trace (constructor ''M'', [])) = [Awaits 0, Awaits 0] \<and>
   loads (fst (run flaky_env retry_trace (constructor ''M'', []))) = 1 \<and>
   promises (fst (run flaky_env retry_trace (constructor ''M'', []))) 0
     = Rejected (new_Error ''Failed to initialize embedding model: fetch failed'') \<and>
   await_initialize steady_env (fst (run flaky_env retry_trace (constructor ''M'', [])))
     = (Inl (new_Error ''Failed to initialize embedding model: fetch failed''),
        fst (run flaky_env retry_trace (constructor ''M'', [])))"
  using failed_initialize_not_retried [of flaky_env "''M''" "JSError ''TypeError'' ''fetch failed''"
      retry_trace
      "fst (run flaky_env retry_trace (constructor ''M'', []))"
      "snd (run flaky_env retry_trace (constructor ''M'', []))"]
  by (simp add: init_defs flaky_env_def retry_trace_def await_initialize_def await_promise_def)

text \<open>
  C1, as stated, fails: after the failed attempt the promise is still set, and the second
  call of \<^verbatim>\<open>initialize()\<close> receives it again instead of starting the load that would
  have succeeded.
\<close>

theorem failed_initialize_counterexample:
  "initializationPromise (fst (run flaky_env retry_trace (constructor ''M'', []))) = Some 0 \<and>
   \<not> isInitialized (fst (run flaky_env retry_trace (constructor ''M'', []))) \<and>
   loads (fst (run flaky_env retry_trace (constructor ''M'', []))) = 1 \<and>
   snd (run flaky_env retry_trace (constructor ''M'', [])) = [Awaits 0, Awaits 0] \<and>
   pipeline_load flaky_env 1 ''M'' = Inr example_pipeline"
  by (simp add: init_defs flaky_env_def retry_trace_def)



section \<open>Embedding documents\<close>

lemma await_initialize_completion [simp]:
  "await_initialize (env\<lparr> completion := c \<rparr>) s = await_initialize env s"
  by (auto simp: await_defs Let_def split: option.splits promise.splits)

lemma map_Inr_nth:
  "map m ts = map Inr vs \<Longrightarrow>
     length vs = length ts \<and> (\<forall>i < length ts. m (ts ! i) = Inr (vs ! i))"
proof
  assume a: "map m ts = map Inr vs"
  then show l: "length vs = length ts" by (metis length_map)
  show "\<forall>i < length ts. m (ts ! i) = Inr (vs ! i)"
  proof (intro allI impI)
    fix i assume "i < length ts"
    with a l show "m (ts ! i) = Inr (vs ! i)" by (metis nth_map)
  qed
qed

lemmas eval_defs = embedDocuments_def embedDocuments_body_def await_defs rethrow_def
  constructor_def new_Error_def textArray_of_def embed_batches.simps batchSize_def Let_def
  Promise_all_def completion_order_def embed_text_def List.map_filter_simps

text \<open>
  C3. Whenever \<^verbatim>\<open>embedDocuments\<close> returns vectors, there are as many as input texts and
  the \<open>i\<close>-th is what the pipeline returns for the \<open>i\<close>-th text, and the same result is
  returned under every other completion order of the computations within the batches. It
  does return vectors for every non-empty input, shorter than, as long as or longer than a
  batch, on which initialization succeeds and the pipeline accepts every text.
\<close>

theorem embedDocuments_order_preserved:
  "(\<forall>vs s'. embedDocuments env texts s = (Inr vs, s') \<longrightarrow>
      (\<exists>m. model s' = Some m \<and> length vs = length (textArray_of texts) \<and>
           (\<forall>i < length (textArray_of texts). m (textArray_of texts ! i) = Inr (vs ! i))) \<and>
      (\<forall>c. embedDocuments (env\<lparr> completion := c \<rparr>) texts s = (Inr vs, s'))) \<and>
   (\<forall>s1 m. textArray_of texts \<noteq> [] \<and> await_initialize env s = (Inr (), s1) \<and>
       model s1 = Some m \<and> (\<forall>t \<in> set (textArray_of texts). \<exists>v. m t = Inr v) \<longrightarrow>
       (\<exists>vs s'. embedDocuments env texts s = (Inr vs, s')))"
proof -
  let ?ts = "textArray_of texts"
  have A: "(\<exists>m. model s' = Some m \<and> length vs = length ?ts \<and>
           (\<forall>i < length ?ts. m (?ts ! i) = Inr (vs ! i))) \<and>
      (\<forall>c. embedDocuments (env\<lparr> completion := c \<rparr>) texts s = (Inr vs, s'))"
    if a: "embedDocuments env texts s = (Inr vs, s')" for vs s'
  proof
  from embedDocuments_success [OF a] obtain s1 m where
    i: "await_initialize env s = (Inr (), s1)" and md: "model s1 = Some m" and ne: "?ts \<noteq> []"
    and mp: "map m ?ts = map Inr vs" and st: "s' = s1\<lparr> inferred := inferred s1 @ ?ts \<rparr>"
    by blast
  from md st have "model s' = Some m" by simp
  with map_Inr_nth [OF mp]
    show "\<exists>m. model s' = Some m \<and> length vs = length ?ts \<and>
           (\<forall>i < length ?ts. m (?ts ! i) = Inr (vs ! i))" by blast
    show "\<forall>c. embedDocuments (env\<lparr> completion := c \<rparr>) texts s = (Inr vs, s')"
  proof
    fix c
    let ?env = "env\<lparr> completion := c \<rparr>"
    from i have i': "await_initialize ?env s = (Inr (), s1)" by simp
    have ok: "\<forall>t \<in> set ?ts. \<exists>v. m t = Inr v"
    proof
      fix t assume "t \<in> set ?ts"
      then have "m t \<in> set (map m ?ts)" by simp
      with mp show "\<exists>v. m t = Inr v" by auto
    qed
    from embedDocuments_total_success [OF i' md ne ok]
    obtain vs2 s2 where r: "embedDocuments ?env texts s = (Inr vs2, s2)" by blast
    from embedDocuments_success [OF r] i' md obtain
      "map m ?ts = map Inr vs2" "s2 = s1\<lparr> inferred := inferred s1 @ ?ts \<rparr>" by auto
    with mp st have "vs2 = vs" "s2 = s'" by (simp_all add: inj_map_eq_map)
    with r show "embedDocuments ?env texts s = (Inr vs, s')" by simp
  qed
  qed
  have B: "\<exists>vs s'. embedDocuments env texts s = (Inr vs, s')"
    if "textArray_of texts \<noteq> [] \<and> await_initialize env s = (Inr (), s1) \<and>
       model s1 = Some m \<and> (\<forall>t \<in> set (textArray_of texts). \<exists>v. m t = Inr v)" for s1 m
    using that embedDocuments_total_success [of env s s1 m texts] by blast
  from A B show ?thesis by blast
qed

theorem embedDocuments_order_preserved_witness:
  "textArray_of nine_texts \<noteq> [] \<and>
   fst (await_initialize steady_env (constructor ''M'')) = Inr () \<and>
   fst (embedDocuments steady_env nine_texts (constructor ''M''))
     = Inr [[1, 1], [2, 1], [3, 1], [4, 1], [1, 1], [2, 1], [3, 1], [4, 1], [5, 1]] \<and>
   fst (embedDocuments (steady_env\<lparr> completion := (\<lambda>i. [7, 0, 5]) \<rparr>) nine_texts (constructor ''M''))
     = Inr [[1, 1], [2, 1], [3, 1], [4, 1], [1, 1], [2, 1], [3, 1], [4, 1], [5, 1]]"
proof -
  let ?vs = "[[1, 1], [2, 1], [3, 1], [4, 1], [1, 1], [2, 1], [3, 1], [4, 1], [5::nat, 1]]"
  have a: "textArray_of nine_texts \<noteq> []" by (simp add: nine_texts_def textArray_of_def)
  have b: "fst (await_initialize steady_env (constructor ''M'')) = Inr ()"
    by (simp add: eval_defs steady_env_def)
  have c: "fst (embedDocuments steady_env nine_texts (constructor ''M'')) = Inr ?vs"
    by (simp add: eval_defs steady_env_def nine_texts_def example_pipeline_def)
  then obtain s' where "embedDocuments steady_env nine_texts (constructor ''M'') = (Inr ?vs, s')"
    by (cases "embedDocuments steady_env nine_texts (constructor ''M'')") simp
  with embedDocuments_order_preserved [of steady_env nine_texts "constructor ''M''"]
  have "embedDocuments (steady_env\<lparr> completion := (\<lambda>i. [7, 0, 5]) \<rparr>) nine_texts (constructor ''M'')
      = (Inr ?vs, s')" by blast
  then have d: "fst (embedDocuments (steady_env\<lparr> completion := (\<lambda>i. [7, 0, 5]) \<rparr>) nine_texts
      (constructor ''M'')) = Inr ?vs" by simp
  from a b c d show ?thesis by blast
qed

lemma embedDocuments_after_failed_initialize:
  "await_initialize env s = (Inl e, s1) \<Longrightarrow>
     embedDocuments env texts s
       = (Inl (new_Error (''Failed to generate embeddings: '' @ message e)), s1)"
  by (simp add: embedDocuments_def embedDocuments_body_def rethrow_def)

text \<open>
  C4, as the code has it. \<^verbatim>\<open>await this.initialize()\<close> comes before the test for an empty
  array, so from a consistent state the call fails with the empty-input error (a plain
  \<^verbatim>\<open>Error\<close>, told apart by its message) exactly when the effective sequence is empty and
  initialization has succeeded. A single text, also the empty string, is a sequence of one
  element and never fails with that error.
\<close>

theorem empty_input_rejected:
  "consistent s \<Longrightarrow>
     (fst (embedDocuments env texts s) = Inl empty_input_error
        \<longleftrightarrow> textArray_of texts = [] \<and> fst (await_initialize env s) = Inr ()) \<and>
     textArray_of (Single t) = [t] \<and>
     fst (embedDocuments env (Single t) s) \<noteq> Inl empty_input_error"
proof -
  assume c: "consistent s"
  have fwd: "textArray_of txs = [] \<and> fst (await_initialize env s) = Inr ()"
    if f: "fst (embedDocuments env txs s) = Inl empty_input_error" for txs
  proof -
    from f obtain s' where r: "embedDocuments env txs s = (Inl empty_input_error, s')"
      by (cases "embedDocuments env txs s") simp
    have msg: "message empty_input_error
        = ''Failed to generate embeddings: No texts provided for embedding''"
      by (simp add: empty_input_error_def new_Error_def)
    from embedDocuments_failure [OF r] msg
    consider (init) e0 where "await_initialize env s = (Inl e0, s')"
        "''Failed to generate embeddings: No texts provided for embedding''
           = ''Failed to generate embeddings: '' @ message e0"
      | (empty) s1 where "await_initialize env s = (Inr (), s1)" "textArray_of txs = []"
      | (null) "''Failed to generate embeddings: No texts provided for embedding''
           = ''Failed to generate embeddings: Failed to embed text: this.model is not a function''"
      | (pertext) e0 where "''Failed to generate embeddings: No texts provided for embedding''
           = ''Failed to generate embeddings: Failed to embed text: '' @ message e0"
      by (elim conjE disjE exE) simp_all
    then show ?thesis
    proof cases
      case init
      from init(2) have "message e0 = ''No texts provided for embedding''" by simp
      moreover from await_initialize_error [OF c init(1)]
      have "starts_with ''Failed to initialize embedding model: '' (message e0)" by simp
      ultimately show ?thesis by (simp add: starts_with_def)
    next
      case empty
      then show ?thesis by simp
    next
      case null
      then show ?thesis by simp
    next
      case pertext
      then show ?thesis by simp
    qed
  qed
  have bwd: "fst (embedDocuments env texts s) = Inl empty_input_error"
    if "textArray_of texts = [] \<and> fst (await_initialize env s) = Inr ()"
    using that
    by (auto simp: embedDocuments_def embedDocuments_body_def rethrow_def empty_input_error_def
             new_Error_def split: prod.splits sum.splits)
  have single: "textArray_of (Single t) = [t]" by (simp add: textArray_of_def)
  with fwd [of "Single t"] have "fst (embedDocuments env (Single t) s) \<noteq> Inl empty_input_error"
    by auto
  with fwd [of texts] bwd single show ?thesis by blast
qed

theorem empty_input_rejected_witness:
  "consistent (constructor ''M'' :: nat service) \<and>
   textArray_of (Many []) = [] \<and>
   fst (await_initialize steady_env (constructor ''M'')) = Inr () \<and>
   fst (embedDocuments steady_env (Many []) (constructor ''M'')) = Inl empty_input_error \<and>
   fst (embedDocuments steady_env (Single '''') (constructor ''M'')) = Inr [[0, 1]]"
proof -
  have c: "consistent (constructor ''M'' :: nat service)" by (rule consistent_constructor)
  have a: "textArray_of (Many []) = []" by (simp add: textArray_of_def)
  have b: "fst (await_initialize steady_env (constructor ''M'')) = Inr ()"
    by (simp add: eval_defs steady_env_def)
  from empty_input_rejected [OF c, of steady_env "Many []" "''''"] a b
  have d: "fst (embedDocuments steady_env (Many []) (constructor ''M'')) = Inl empty_input_error"
    by blast
  have e: "fst (embedDocuments steady_env (Single '''') (constructor ''M'')) = Inr [[0, 1]]"
    by (simp add: eval_defs steady_env_def example_pipeline_def)
  from a b c d e show ?thesis by blast
qed

text \<open>
  C4, as stated, fails: when the model cannot be loaded, \<^verbatim>\<open>embedDocuments([])\<close> fails
  with the initialization error and not with the empty-input error.
\<close>

theorem empty_input_counterexample:
  "textArray_of (Many []) = [] \<and>
   fst (embedDocuments flaky_env (Many []) (constructor ''M''))
     = Inl (new_Error ''Failed to generate embeddings: Failed to initialize embedding model: fetch failed'') \<and>
   fst (embedDocuments flaky_env (Many []) (constructor ''M'')) \<noteq> Inl empty_input_error"
  by (simp add: eval_defs flaky_env_def empty_input_error_def)

text \<open>
  C5, as the code has it. When initialization has succeeded and the pipeline throws on
  some input text, the whole call fails: with a plain \<^verbatim>\<open>Error\<close> whose message is
  \<^verbatim>\<open>Failed to generate embeddings: Failed to embed text: \<close> followed by the message that the
  pipeline threw on one of the failing texts. And a call that returns vectors returns one
  for every input text, each the pipeline's output for its text: no partial result.
\<close>

theorem embedDocuments_all_or_nothing:
  "(\<forall>s1 m t e0. await_initialize env s = (Inr (), s1) \<and> model s1 = Some m \<and>
       t \<in> set (textArray_of texts) \<and> m t = Inl e0 \<longrightarrow>
       (\<exists>t' e'. t' \<in> set (textArray_of texts) \<and> m t' = Inl e' \<and>
          fst (embedDocuments env texts s)
            = Inl (new_Error (''Failed to generate embeddings: Failed to embed text: '' @ message e')))) \<and>
   (\<forall>vs s'. embedDocuments env texts s = (Inr vs, s') \<longrightarrow>
       length vs = length (textArray_of texts) \<and>
       (\<exists>m. model s' = Some m \<and> map m (textArray_of texts) = map Inr vs))"
proof -
  let ?ts = "textArray_of texts"
  have A: "\<exists>t' e'. t' \<in> set ?ts \<and> m t' = Inl e' \<and>
          fst (embedDocuments env texts s)
            = Inl (new_Error (''Failed to generate embeddings: Failed to embed text: '' @ message e'))"
    if h: "await_initialize env s = (Inr (), s1) \<and> model s1 = Some m \<and> t \<in> set ?ts \<and> m t = Inl e0"
    for s1 m t e0
  proof -
    from h have i: "await_initialize env s = (Inr (), s1)" and md: "model s1 = Some m"
      and t: "t \<in> set ?ts" and f: "m t = Inl e0" by simp_all
    obtain r s' where r: "embedDocuments env texts s = (r, s')"
      by (cases "embedDocuments env texts s")
    show ?thesis
    proof (cases r)
      case (Inr vs)
      with r have "embedDocuments env texts s = (Inr vs, s')" by simp
      from embedDocuments_success [OF this] i md have "map m ?ts = map Inr vs" by auto
      moreover from t have "m t \<in> set (map m ?ts)" by simp
      ultimately show ?thesis using f by auto
    next
      case (Inl e)
      with r have re: "embedDocuments env texts s = (Inl e, s')" by simp
      from embedDocuments_failure [OF re] i md t
      obtain t' e' where "t' \<in> set ?ts" "m t' = Inl e'" "errname e = ''Error''"
        "message e = ''Failed to generate embeddings: Failed to embed text: '' @ message e'"
        by auto
      moreover from this have "e = new_Error (''Failed to generate embeddings: Failed to embed text: '' @ message e')"
        by (cases e) (simp add: new_Error_def)
      ultimately show ?thesis using re by auto
    qed
  qed
  have B: "length vs = length ?ts \<and> (\<exists>m. model s' = Some m \<and> map m ?ts = map Inr vs)"
    if a: "embedDocuments env texts s = (Inr vs, s')" for vs s'
  proof -
    from embedDocuments_success [OF a] obtain s1 m where
      md: "model s1 = Some m" and mp: "map m ?ts = map Inr vs"
      and st: "s' = s1\<lparr> inferred := inferred s1 @ ?ts \<rparr>" by blast
    from md st have "model s' = Some m" by simp
    with mp map_Inr_nth [OF mp] show ?thesis by blast
  qed
  from A B show ?thesis by blast
qed

theorem embedDocuments_all_or_nothing_witness:
  "fst (await_initialize steady_env (constructor ''M'')) = Inr () \<and>
   model (snd (await_initialize steady_env (constructor ''M''))) = Some example_pipeline \<and>
   ''bad'' \<in> set (textArray_of (Many [''a'', ''bad'', ''c''])) \<and>
   example_pipeline ''bad'' = Inl (JSError ''RangeError'' ''boom'') \<and>
   fst (embedDocuments steady_env (Many [''a'', ''bad'', ''c'']) (constructor ''M''))
     = Inl (new_Error ''Failed to generate embeddings: Failed to embed text: boom'')"
proof -
  let ?s1 = "snd (await_initialize steady_env (constructor ''M''))"
  have a: "fst (await_initialize steady_env (constructor ''M'')) = Inr ()"
    by (simp add: eval_defs steady_env_def)
  have b: "model ?s1 = Some example_pipeline" by (simp add: eval_defs steady_env_def)
  have c: "''bad'' \<in> set (textArray_of (Many [''a'', ''bad'', ''c'']))" by (simp add: textArray_of_def)
  have d: "example_pipeline ''bad'' = Inl (JSError ''RangeError'' ''boom'')"
    by (simp add: example_pipeline_def)
  from a have i: "await_initialize steady_env (constructor ''M'') = (Inr (), ?s1)"
    by (cases "await_initialize steady_env (constructor ''M'')") simp
  from embedDocuments_all_or_nothing [of steady_env "constructor ''M''" "Many [''a'', ''bad'', ''c'']"]
    i b c d
  obtain t' e' where e: "example_pipeline t' = Inl e'"
    "fst (embedDocuments steady_env (Many [''a'', ''bad'', ''c'']) (constructor ''M''))
       = Inl (new_Error (''Failed to generate embeddings: Failed to embed text: '' @ message e'))"
    by blast
  from e(1) have "message e' = ''boom''" by (auto simp: example_pipeline_def split: if_splits)
  with e(2) a b c d show ?thesis by simp
qed

text \<open>
  C5, as stated, fails: the error is a plain \<^verbatim>\<open>Error\<close> and says nothing of the text. Two
  calls whose failing texts differ fail with one and the same error.
\<close>

theorem failing_text_not_identified_counterexample:
  "fst (embedDocuments steady_env (Many [''bad'']) (constructor ''M''))
     = Inl (JSError ''Error'' ''Failed to generate embeddings: Failed to embed text: boom'') \<and>
   fst (embedDocuments steady_env (Many [''worse'']) (constructor ''M''))
     = Inl (JSError ''Error'' ''Failed to generate embeddings: Failed to embed text: boom'')"
  by (simp add: eval_defs steady_env_def example_pipeline_def)

section \<open>Errors that reach the caller\<close>

lemma embedQuery_Inl:
  "embedQuery env t s = (Inl e, s') \<longleftrightarrow>
     (\<exists>e1. embedDocuments env (Many [t]) s = (Inl e1, s') \<and>
           e = new_Error (''Failed to generate query embedding: '' @ message e1))"
  by (auto simp: embedQuery_def rethrow_def split: prod.splits sum.splits)

lemma embedQuery_Inr:
  "embedQuery env t s = (Inr r, s') \<longleftrightarrow>
     (\<exists>vs. embedDocuments env (Many [t]) s = (Inr vs, s') \<and>
           r = (case vs of [] \<Rightarrow> None | v # rest \<Rightarrow> Some v))"
  by (auto simp: embedQuery_def rethrow_def split: prod.splits sum.splits)

lemma embedDocuments_one:
  "embedDocuments env (Many [t]) s = (Inr vs, s') \<Longrightarrow>
     \<exists>v m. vs = [v] \<and> model s' = Some m \<and> m t = Inr v"
proof -
  assume a: "embedDocuments env (Many [t]) s = (Inr vs, s')"
  from embedDocuments_success [OF a] obtain s1 m where
    md: "model s1 = Some m" and mp: "map m [t] = map Inr vs"
    and st: "s' = s1\<lparr> inferred := inferred s1 @ textArray_of (Many [t]) \<rparr>"
    by (auto simp: textArray_of_def)
  from mp obtain v where "vs = [v]" "m t = Inr v" by (cases vs) auto
  with md st show ?thesis by simp
qed

text \<open>
  C10. An error that leaves \<^verbatim>\<open>embedDocuments\<close> is a new \<^verbatim>\<open>Error\<close>, whatever the class
  of the error behind it, and its message is \<^verbatim>\<open>Failed to generate embeddings: \<close> followed by
  the message of the error thrown inside the \<^verbatim>\<open>try\<close>: the one \<^verbatim>\<open>initialize()\<close> rejected
  with, the one for an empty array, or, for a text, \<^verbatim>\<open>Failed to embed text: \<close> followed by the
  message of what the pipeline threw (a \<^verbatim>\<open>TypeError\<close> should \<^verbatim>\<open>this.model\<close> be
  \<^verbatim>\<open>null\<close>). An error that leaves \<^verbatim>\<open>embedQuery\<close> is again a new \<^verbatim>\<open>Error\<close>, with
  \<^verbatim>\<open>Failed to generate query embedding: \<close> before the message of the error of
  \<^verbatim>\<open>embedDocuments\<close>.
\<close>

theorem errors_are_rewrapped:
  "(\<forall>e s'. embedDocuments env texts s = (Inl e, s') \<longrightarrow>
      errname e = ''Error'' \<and>
      ((\<exists>e0. await_initialize env s = (Inl e0, s') \<and>
             message e = ''Failed to generate embeddings: '' @ message e0) \<or>
       (\<exists>s1. await_initialize env s = (Inr (), s1) \<and>
          ((textArray_of texts = [] \<and> s' = s1 \<and>
            message e = ''Failed to generate embeddings: '' @ message (new_Error ''No texts provided for embedding'')) \<or>
           (textArray_of texts \<noteq> [] \<and> model s1 = None \<and>
            message e = ''Failed to generate embeddings: '' @ ''Failed to embed text: '' @
                        message (JSError ''TypeError'' ''this.model is not a function'')) \<or>
           (\<exists>m t e0. model s1 = Some m \<and> t \<in> set (textArray_of texts) \<and> m t = Inl e0 \<and>
              message e = ''Failed to generate embeddings: '' @ ''Failed to embed text: '' @ message e0))))) \<and>
   (\<forall>e s'. embedQuery env t s = (Inl e, s') \<longrightarrow>
      errname e = ''Error'' \<and>
      (\<exists>e1. embedDocuments env (Many [t]) s = (Inl e1, s') \<and>
            message e = ''Failed to generate query embedding: '' @ message e1))"
proof -
  have A: "errname e = ''Error'' \<and>
      ((\<exists>e0. await_initialize env s = (Inl e0, s') \<and>
             message e = ''Failed to generate embeddings: '' @ message e0) \<or>
       (\<exists>s1. await_initialize env s = (Inr (), s1) \<and>
          ((textArray_of texts = [] \<and> s' = s1 \<and>
            message e = ''Failed to generate embeddings: '' @ message (new_Error ''No texts provided for embedding'')) \<or>
           (textArray_of texts \<noteq> [] \<and> model s1 = None \<and>
            message e = ''Failed to generate embeddings: '' @ ''Failed to embed text: '' @
                        message (JSError ''TypeError'' ''this.model is not a function'')) \<or>
           (\<exists>m t e0. model s1 = Some m \<and> t \<in> set (textArray_of texts) \<and> m t = Inl e0 \<and>
              message e = ''Failed to generate embeddings: '' @ ''Failed to embed text: '' @ message e0))))"
    if f: "embedDocuments env texts s = (Inl e, s')" for e s'
    using embedDocuments_failure [OF f] by (simp add: new_Error_def)
  have B: "errname e = ''Error'' \<and>
      (\<exists>e1. embedDocuments env (Many [t]) s = (Inl e1, s') \<and>
            message e = ''Failed to generate query embedding: '' @ message e1)"
    if f: "embedQuery env t s = (Inl e, s')" for e s'
    using f by (auto simp: embedQuery_Inl new_Error_def)
  from A B show ?thesis by blast
qed

theorem errors_are_rewrapped_witness:
  "example_pipeline ''bad'' = Inl (JSError ''RangeError'' ''boom'') \<and>
   fst (embedDocuments steady_env (Many [''x'', ''bad'']) (constructor ''M''))
     = Inl (JSError ''Error'' ''Failed to generate embeddings: Failed to embed text: boom'') \<and>
   fst (embedQuery steady_env ''bad'' (constructor ''M''))
     = Inl (JSError ''Error'' ''Failed to generate query embedding: Failed to generate embeddings: Failed to embed text: boom'') \<and>
   errname (JSError ''Error'' ''Failed to generate embeddings: Failed to embed text: boom'') = ''Error''"
proof -
  let ?e = "JSError ''Error'' ''Failed to generate embeddings: Failed to embed text: boom''"
  let ?q = "JSError ''Error'' ''Failed to generate query embedding: Failed to generate embeddings: Failed to embed text: boom''"
  have a: "example_pipeline ''bad'' = Inl (JSError ''RangeError'' ''boom'')"
    by (simp add: example_pipeline_def)
  have b: "fst (embedDocuments steady_env (Many [''x'', ''bad'']) (constructor ''M'')) = Inl ?e"
    by (simp add: eval_defs steady_env_def example_pipeline_def)
  have c: "fst (embedQuery steady_env ''bad'' (constructor ''M'')) = Inl ?q"
    by (simp add: embedQuery_def eval_defs steady_env_def example_pipeline_def)
  from b obtain s' where "embedDocuments steady_env (Many [''x'', ''bad'']) (constructor ''M'') = (Inl ?e, s')"
    by (cases "embedDocuments steady_env (Many [''x'', ''bad'']) (constructor ''M'')") simp
  with errors_are_rewrapped [of steady_env "Many [''x'', ''bad'']" "constructor ''M''"]
  have d: "errname ?e = ''Error''" by blast
  from a b c d show ?thesis by blast
qed

section \<open>\<^verbatim>\<open>embedQuery\<close>\<close>

text \<open>
  C9. \<^verbatim>\<open>embedQuery(text)\<close> leaves the service in the state in which
  \<^verbatim>\<open>embedDocuments([text])\<close> leaves it and fails exactly when that call fails (with its
  error wrapped once more); when that call returns, it returns exactly one vector and
  \<^verbatim>\<open>embedQuery\<close> returns that vector.
\<close>

theorem embedQuery_delegates:
  "snd (embedQuery env t s) = snd (embedDocuments env (Many [t]) s) \<and>
   ((\<exists>e. fst (embedQuery env t s) = Inl e) \<longleftrightarrow>
      (\<exists>e. fst (embedDocuments env (Many [t]) s) = Inl e)) \<and>
   (\<forall>vs. fst (embedDocuments env (Many [t]) s) = Inr vs \<longrightarrow>
      (\<exists>v. vs = [v] \<and> fst (embedQuery env t s) = Inr (Some v))) \<and>
   (\<forall>e. fst (embedDocuments env (Many [t]) s) = Inl e \<longrightarrow>
      fst (embedQuery env t s)
        = Inl (new_Error (''Failed to generate query embedding: '' @ message e)))"
proof -
  obtain r s' where r: "embedDocuments env (Many [t]) s = (r, s')"
    by (cases "embedDocuments env (Many [t]) s")
  show ?thesis
  proof (cases r)
    case (Inl e)
    with r have "embedQuery env t s
        = (Inl (new_Error (''Failed to generate query embedding: '' @ message e)), s')"
      by (simp add: embedQuery_Inl)
    with r Inl show ?thesis by simp
  next
    case (Inr vs)
    with r have d: "embedDocuments env (Many [t]) s = (Inr vs, s')" by simp
    from embedDocuments_one [OF d] obtain v where v: "vs = [v]" by blast
    with d have "embedQuery env t s = (Inr (Some v), s')" by (simp add: embedQuery_Inr)
    with r Inr v show ?thesis by simp
  qed
qed

theorem embedQuery_delegates_witness:
  "fst (embedDocuments steady_env (Many [''hello'']) (constructor ''M'')) = Inr [[5, 1]] \<and>
   fst (embedQuery steady_env ''hello'' (constructor ''M'')) = Inr (Some [5, 1]) \<and>
   fst (embedDocuments steady_env (Many [''bad'']) (constructor ''M''))
     = Inl (new_Error ''Failed to generate embeddings: Failed to embed text: boom'') \<and>
   fst (embedQuery steady_env ''bad'' (constructor ''M''))
     = Inl (new_Error ''Failed to generate query embedding: Failed to generate embeddings: Failed to embed text: boom'')"
proof -
  have a: "fst (embedDocuments steady_env (Many [''hello'']) (constructor ''M'')) = Inr [[5, 1]]"
    by (simp add: eval_defs steady_env_def example_pipeline_def)
  have b: "fst (embedDocuments steady_env (Many [''bad'']) (constructor ''M''))
     = Inl (new_Error ''Failed to generate embeddings: Failed to embed text: boom'')"
    by (simp add: eval_defs steady_env_def example_pipeline_def)
  from a embedQuery_delegates [of steady_env "''hello''" "constructor ''M''"]
  have c: "fst (embedQuery steady_env ''hello'' (constructor ''M'')) = Inr (Some [5, 1])" by simp
  from b embedQuery_delegates [of steady_env "''bad''" "constructor ''M''"]
  have d: "fst (embedQuery steady_env ''bad'' (constructor ''M''))
     = Inl (new_Error ''Failed to generate query embedding: Failed to generate embeddings: Failed to embed text: boom'')"
    by (simp add: new_Error_def)
  from a b c d show ?thesis by blast
qed

section \<open>The cached dimension\<close>

lemma getEmbeddingDimension_split:
  "getEmbeddingDimension env s =
     (case getEmbeddingDimension_until_probe env s of
        (Inl e, s1) \<Rightarrow> (Inl e, s1)
      | (Inr (Some d), s1) \<Rightarrow> (Inr d, s1)
      | (Inr None, s1) \<Rightarrow> getEmbeddingDimension_probe env s1)"
  by (auto simp: getEmbeddingDimension_def getEmbeddingDimension_until_probe_def
        getEmbeddingDimension_probe_def rethrow_def
      split: prod.splits sum.splits option.splits nat.splits)

lemma await_initialize_inferred:
  "await_initialize env (s\<lparr> inferred := tr \<rparr>)
     = (fst (await_initialize env s), (snd (await_initialize env s))\<lparr> inferred := tr \<rparr>)"
  by (auto simp: await_defs Let_def split: option.splits promise.splits sum.splits)

lemma await_initialize_cachedDimension:
  "await_initialize env (s\<lparr> cachedDimension := c \<rparr>)
     = (fst (await_initialize env s), (snd (await_initialize env s))\<lparr> cachedDimension := c \<rparr>)"
  by (auto simp: await_defs Let_def split: option.splits promise.splits sum.splits)

lemma consistent_inferred [simp]: "consistent (s\<lparr> inferred := tr \<rparr>) = consistent s"
  by (simp add: consistent_def cong: option.case_cong promise.case_cong)

lemma consistent_cachedDimension [simp]: "consistent (s\<lparr> cachedDimension := c \<rparr>) = consistent s"
  by (simp add: consistent_def cong: option.case_cong promise.case_cong)

lemma embedDocuments_state:
  "embedDocuments env texts s = (r, s') \<Longrightarrow>
     \<exists>tr. s' = (snd (await_initialize env s))\<lparr> inferred := inferred (snd (await_initialize env s)) @ tr \<rparr>"
proof -
  assume a: "embedDocuments env texts s = (r, s')"
  then obtain r0 where b: "embedDocuments_body env texts s = (r0, s')"
    by (auto simp: embedDocuments_def rethrow_def split: prod.splits sum.splits)
  let ?s1 = "snd (await_initialize env s)"
  have triv: "?s1 = ?s1\<lparr> inferred := inferred ?s1 @ [] \<rparr>" by simp
  from embedDocuments_body_cases [OF b]
  consider "s' = ?s1" | "s' = snd (embed_batches env (textArray_of texts) 0 [] ?s1)"
    by (elim disjE exE conjE) simp_all
  then show ?thesis
  proof cases
    case 1
    with triv have "s' = ?s1\<lparr> inferred := inferred ?s1 @ [] \<rparr>" by simp
    then show ?thesis by (rule exI)
  next
    case 2
    from embed_batches_state [of env "textArray_of texts" 0 "[]" ?s1] 2
    obtain tr where "s' = ?s1\<lparr> inferred := inferred ?s1 @ tr \<rparr>" by auto
    then show ?thesis by (rule exI)
  qed
qed


lemma embedQuery_state: "snd (embedQuery env t s) = snd (embedDocuments env (Many [t]) s)"
  by (auto simp: embedQuery_def rethrow_def split: prod.splits sum.splits)

lemma embedQuery_ready:
  assumes i: "await_initialize env0 s0 = (Inr u, s)" and q: "embedQuery env ''test'' s = (r, s')"
  shows "(\<exists>tr. s' = s\<lparr> inferred := inferred s @ tr \<rparr>) \<and>
         (\<forall>v. r = Inr v \<longrightarrow> s' = s\<lparr> inferred := inferred s @ [''test''] \<rparr> \<and>
              (\<exists>w. v = Some w))"
proof -
  from await_initialize_again [OF i] have ai: "await_initialize env s = (Inr (), s)" .
  obtain rd where d: "embedDocuments env (Many [''test'']) s = (rd, s')"
    using q embedQuery_state [of env "''test''" s] by (cases "embedDocuments env (Many [''test'']) s") simp
  from embedDocuments_state [OF d] ai
  have A: "\<exists>tr. s' = s\<lparr> inferred := inferred s @ tr \<rparr>" by simp
  have B: "s' = s\<lparr> inferred := inferred s @ [''test''] \<rparr> \<and> (\<exists>w. v = Some w)" if "r = Inr v" for v
  proof -
    from that q obtain vs where vs: "embedDocuments env (Many [''test'']) s = (Inr vs, s')"
      "v = (case vs of [] \<Rightarrow> None | w # rest \<Rightarrow> Some w)"
      by (auto simp: embedQuery_Inr)
    from embedDocuments_success [OF vs(1)] ai
    have "s' = s\<lparr> inferred := inferred s @ [''test''] \<rparr>" by (auto simp: textArray_of_def)
    moreover from embedDocuments_one [OF vs(1)] vs(2) have "\<exists>w. v = Some w" by auto
    ultimately show ?thesis by simp
  qed
  from A B show ?thesis by blast
qed

lemma getEmbeddingDimension_cases:
  assumes g: "getEmbeddingDimension env s = (Inr d, s')"
  shows "\<exists>s1. await_initialize env s = (Inr (), s1) \<and>
           ((\<exists>k. cachedDimension s1 = Some (Suc k) \<and> d = Suc k \<and> s' = s1) \<or>
            ((cachedDimension s1 = None \<or> cachedDimension s1 = Some 0) \<and>
             (\<exists>m w. model s1 = Some m \<and> m ''test'' = Inr w \<and> d = length w) \<and>
             s' = s1\<lparr> inferred := inferred s1 @ [''test''], cachedDimension := Some d \<rparr>))"
proof -
  obtain r1 s1 where i: "await_initialize env s = (r1, s1)" by (cases "await_initialize env s")
  with g obtain u where r1: "r1 = Inr u"
    by (cases r1) (auto simp: getEmbeddingDimension_def rethrow_def)
  with i have i': "await_initialize env s = (Inr (), s1)" by simp
  show ?thesis
  proof (cases "\<exists>k. cachedDimension s1 = Some (Suc k)")
    case True
    then obtain k where "cachedDimension s1 = Some (Suc k)" by blast
    with g i' show ?thesis by (auto simp: getEmbeddingDimension_def rethrow_def)
  next
    case False
    then have c: "cachedDimension s1 = None \<or> cachedDimension s1 = Some 0"
      by (cases "cachedDimension s1") (auto intro: nat.exhaust dest: not0_implies_Suc)
    obtain rq s2 where q: "embedQuery env ''test'' s1 = (rq, s2)" by (cases "embedQuery env ''test'' s1")
    from g i' c q obtain w where w: "rq = Inr (Some w)" "d = length w"
      "s' = s2\<lparr> cachedDimension := Some (length w) \<rparr>"
      by (auto simp: getEmbeddingDimension_def rethrow_def split: sum.splits option.splits)
    from embedQuery_ready [OF i' q] w(1) have s2: "s2 = s1\<lparr> inferred := inferred s1 @ [''test''] \<rparr>"
      by simp
    from q w(1) obtain vs where vs: "embedDocuments env (Many [''test'']) s1 = (Inr vs, s2)"
      "Some w = (case vs of [] \<Rightarrow> None | v # rest \<Rightarrow> Some v)"
      by (auto simp: embedQuery_Inr)
    from embedDocuments_one [OF vs(1)] vs(2) s2
    have "\<exists>m. model s1 = Some m \<and> m ''test'' = Inr w" by auto
    with w s2 c i' show ?thesis by auto
  qed
qed

lemmas eval_more = eval_defs embedQuery_def getEmbeddingDimension_def healthCheck_def
  getServiceInfo_def getEmbeddingDimension_until_probe_def getEmbeddingDimension_probe_def

text \<open>
  What calls that follow one another achieve. A call of \<^verbatim>\<open>getEmbeddingDimension\<close> that
  runs to its end and returns \<open>d\<close> has passed at most one text to the pipeline, the probe
  \<^verbatim>\<open>test\<close>: none when a non-zero dimension was cached, exactly one when none was, and then
  \<open>d\<close> is the length of the vector that the pipeline returns for the probe. When \<open>d\<close> is
  not 0 it is cached, and every call that starts afterwards returns \<open>d\<close> and changes
  nothing, in every environment.
\<close>

lemma getEmbeddingDimension_in_sequence:
  "getEmbeddingDimension env s = (Inr d, s') \<Longrightarrow>
     (inferred s' = inferred s \<or> inferred s' = inferred s @ [''test'']) \<and>
     ((\<exists>k. cachedDimension s = Some (Suc k)) \<longrightarrow>
        cachedDimension s = Some d \<and> inferred s' = inferred s) \<and>
     (cachedDimension s = None \<or> cachedDimension s = Some 0 \<longrightarrow>
        cachedDimension s' = Some d \<and> inferred s' = inferred s @ [''test''] \<and>
        (\<exists>m w. model s' = Some m \<and> m ''test'' = Inr w \<and> d = length w)) \<and>
     (d \<noteq> 0 \<longrightarrow>
        cachedDimension s' = Some d \<and>
        (\<forall>env'. getEmbeddingDimension env' s' = (Inr d, s')))"
proof -
  assume g: "getEmbeddingDimension env s = (Inr d, s')"
  from getEmbeddingDimension_cases [OF g] obtain s1 where
    i: "await_initialize env s = (Inr (), s1)" and
    c: "(\<exists>k. cachedDimension s1 = Some (Suc k) \<and> d = Suc k \<and> s' = s1) \<or>
        ((cachedDimension s1 = None \<or> cachedDimension s1 = Some 0) \<and>
         (\<exists>m w. model s1 = Some m \<and> m ''test'' = Inr w \<and> d = length w) \<and>
         s' = s1\<lparr> inferred := inferred s1 @ [''test''], cachedDimension := Some d \<rparr>)"
    by blast
  from await_initialize_frame [OF i]
  have f: "cachedDimension s1 = cachedDimension s" "inferred s1 = inferred s" by simp_all
  have A: "inferred s' = inferred s \<or> inferred s' = inferred s @ [''test'']"
    using c f by auto
  have B: "(\<exists>k. cachedDimension s = Some (Suc k)) \<longrightarrow>
        cachedDimension s = Some d \<and> inferred s' = inferred s"
    using c f by auto
  have C: "cachedDimension s = None \<or> cachedDimension s = Some 0 \<longrightarrow>
        cachedDimension s' = Some d \<and> inferred s' = inferred s @ [''test''] \<and>
        (\<exists>m w. model s' = Some m \<and> m ''test'' = Inr w \<and> d = length w)"
    using c f by auto
  have D: "cachedDimension s' = Some d \<and> (\<forall>env'. getEmbeddingDimension env' s' = (Inr d, s'))"
    if nz: "d \<noteq> 0"
  proof
    from c show cd: "cachedDimension s' = Some d" by auto
    show "\<forall>env'. getEmbeddingDimension env' s' = (Inr d, s')"
    proof
      fix env'
      from await_initialize_again [OF i] have "await_initialize env' s1 = (Inr (), s1)" .
      with c have "await_initialize env' s' = (Inr (), s')"
        by (auto simp: await_initialize_inferred await_initialize_cachedDimension)
      moreover from nz obtain k where "d = Suc k" by (cases d) auto
      ultimately show "getEmbeddingDimension env' s' = (Inr d, s')"
        using cd by (simp add: getEmbeddingDimension_def rethrow_def)
    qed
  qed
  from A B C D show ?thesis by blast
qed

text \<open>
  C6. The claim is what the comments of the method say (\<^verbatim>\<open>Cache the dimension to avoid
  regenerating embeddings\<close>, \<^verbatim>\<open>Generate a test embedding to get the dimension only
  once\<close>), and the code misses it on two inputs. The cache is written only when the probe
  has completed, and no promise of a probe in flight is shared as \<^verbatim>\<open>initialize()\<close> shares
  the one of the load: of two callers on a new service with a working model, the second
  passes the test of the cache while the probe of the first is in flight, and the pipeline
  receives the probe twice. And \<^verbatim>\<open>if (this._cachedDimension)\<close> takes a cached 0 for no
  cache: with a pipeline that returns empty vectors the second of two calls that follow one
  another probes again.
\<close>

theorem getEmbeddingDimension_probes_twice:
  "fst (getEmbeddingDimension_until_probe steady_env (constructor ''M'')) = Inr None \<and>
   fst (getEmbeddingDimension_until_probe steady_env first_caller_waiting) = Inr None \<and>
   fst (getEmbeddingDimension_probe steady_env both_callers_waiting) = Inr 2 \<and>
   fst (getEmbeddingDimension_probe steady_env first_caller_done) = Inr 2 \<and>
   inferred (snd (getEmbeddingDimension_probe steady_env first_caller_done)) = [''test'', ''test''] \<and>
   fst (getEmbeddingDimension hollow_env (constructor ''M'')) = Inr 0 \<and>
   inferred (snd (getEmbeddingDimension hollow_env (constructor ''M''))) = [''test''] \<and>
   inferred (snd (getEmbeddingDimension hollow_env
       (snd (getEmbeddingDimension hollow_env (constructor ''M''))))) = [''test'', ''test'']"
proof -
  have a: "fst (getEmbeddingDimension hollow_env (constructor ''M'')) = Inr 0"
    by (simp add: eval_more hollow_env_def hollow_pipeline_def)
  have b: "inferred (snd (getEmbeddingDimension hollow_env (constructor ''M''))) = [''test'']"
    by (simp add: eval_more hollow_env_def hollow_pipeline_def)
  have c: "inferred (snd (getEmbeddingDimension hollow_env
       (snd (getEmbeddingDimension hollow_env (constructor ''M''))))) = [''test'', ''test'']"
    by (simp add: eval_more hollow_env_def hollow_pipeline_def)
  have d: "fst (getEmbeddingDimension_until_probe steady_env (constructor ''M'')) = Inr None"
    by (simp add: eval_more steady_env_def)
  have e: "fst (getEmbeddingDimension_until_probe steady_env first_caller_waiting) = Inr None"
    by (simp add: first_caller_waiting_def eval_more steady_env_def)
  have f: "fst (getEmbeddingDimension_probe steady_env both_callers_waiting) = Inr 2"
    by (simp add: both_callers_waiting_def first_caller_waiting_def eval_more steady_env_def
          example_pipeline_def)
  have g: "fst (getEmbeddingDimension_probe steady_env first_caller_done) = Inr 2"
    by (simp add: first_caller_done_def both_callers_waiting_def first_caller_waiting_def
          eval_more steady_env_def example_pipeline_def)
  have h: "inferred (snd (getEmbeddingDimension_probe steady_env first_caller_done))
      = [''test'', ''test'']"
    by (simp add: first_caller_done_def both_callers_waiting_def first_caller_waiting_def
          eval_more steady_env_def example_pipeline_def)
  from a b c d e f g h show ?thesis by blast
qed

section \<open>Health and service information\<close>

lemma getEmbeddingDimension_after_initialize:
  "await_initialize env s = (Inr u, s1) \<Longrightarrow> getEmbeddingDimension env s1 = getEmbeddingDimension env s"
proof -
  assume i: "await_initialize env s = (Inr u, s1)"
  from await_initialize_again [OF i] have "await_initialize env s1 = (Inr (), s1)" .
  with i show ?thesis by (simp add: getEmbeddingDimension_def)
qed

lemma rethrow_Inl:
  "rethrow p r = (Inl e, s') \<Longrightarrow> errname e = ''Error'' \<and> starts_with p (message e)"
  by (auto simp: rethrow_def new_Error_def split: prod.splits sum.splits)

lemma getEmbeddingDimension_Inl:
  "getEmbeddingDimension env s = (Inl e, s') \<Longrightarrow>
     errname e = ''Error'' \<and> starts_with ''Failed to get embedding dimension: '' (message e)"
  unfolding getEmbeddingDimension_def by (rule rethrow_Inl)

lemma getEmbeddingDimension_state:
  assumes g: "getEmbeddingDimension env s = (r, s')"
  shows "\<exists>tr c. s' = (snd (await_initialize env s))\<lparr> inferred := tr, cachedDimension := c \<rparr>"
proof -
  obtain r1 s1 where i: "await_initialize env s = (r1, s1)" by (cases "await_initialize env s")
  have triv: "s1 = s1\<lparr> inferred := inferred s1, cachedDimension := cachedDimension s1 \<rparr>" by simp
  show ?thesis
  proof (cases r1)
    case (Inl e)
    with g i have "s' = s1" by (auto simp: getEmbeddingDimension_def rethrow_def)
    with triv i have "s' = (snd (await_initialize env s))\<lparr> inferred := inferred s1,
        cachedDimension := cachedDimension s1 \<rparr>" by simp
    then show ?thesis by blast
  next
    case (Inr u)
    with i have i': "await_initialize env s = (Inr u, s1)" by simp
    obtain rq s2 where q: "embedQuery env ''test'' s1 = (rq, s2)" by (cases "embedQuery env ''test'' s1")
    from embedQuery_ready [OF i' q] obtain tr where s2: "s2 = s1\<lparr> inferred := inferred s1 @ tr \<rparr>"
      by blast
    from g i' q have "s' = s1 \<or> s' = s2 \<or> (\<exists>c. s' = s2\<lparr> cachedDimension := c \<rparr>)"
      by (auto simp: getEmbeddingDimension_def rethrow_def split: sum.splits option.splits nat.splits)
    then consider "s' = s1\<lparr> inferred := inferred s1, cachedDimension := cachedDimension s1 \<rparr>"
      | "s' = s1\<lparr> inferred := inferred s1 @ tr, cachedDimension := cachedDimension s1 \<rparr>"
      | c where "s' = s1\<lparr> inferred := inferred s1 @ tr, cachedDimension := c \<rparr>"
      using s2 by auto
    then have "\<exists>tr c. s' = s1\<lparr> inferred := tr, cachedDimension := c \<rparr>" by cases blast+
    with i show ?thesis by simp
  qed
qed

subsection \<open>Consistent states stay consistent\<close>

text \<open>
  The constructor's state is consistent (\<open>consistent_constructor\<close>), and so is every state
  that calls of \<^verbatim>\<open>initialize\<close>, completed loads and the other methods lead to.
\<close>

lemma step_consistent: "consistent s \<Longrightarrow> consistent (fst (step env (s, hs) ev))"
proof (cases ev)
  case CallInitialize
  assume "consistent s"
  with CallInitialize show ?thesis
    by (auto simp: consistent_def initialize_def initializeModel_def split: option.splits promise.splits)
next
  case (LoadSettles p)
  assume "consistent s"
  with LoadSettles show ?thesis
    by (auto simp: consistent_def resume_initializeModel_def initializeModel_body_def rethrow_def
          new_Error_def starts_with_def split: option.splits promise.splits sum.splits)
qed

lemma run_consistent: "consistent s \<Longrightarrow> consistent (fst (run env es (s, hs)))"
proof (induction es arbitrary: s hs)
  case Nil
  then show ?case by (simp add: run_def)
next
  case (Cons ev es)
  obtain s1 hs1 where st: "step env (s, hs) ev = (s1, hs1)" by (cases "step env (s, hs) ev")
  with step_consistent [OF Cons.prems, of env hs ev] have "consistent s1" by simp
  from Cons.IH [OF this, of hs1] st show ?case by (simp add: run_def)
qed

lemma embedDocuments_consistent:
  "consistent s \<Longrightarrow> consistent (snd (embedDocuments env texts s))"
proof -
  assume c: "consistent s"
  obtain r s' where d: "embedDocuments env texts s = (r, s')" by (cases "embedDocuments env texts s")
  obtain r1 s1 where i: "await_initialize env s = (r1, s1)" by (cases "await_initialize env s")
  from await_initialize_consistent [OF c i] have "consistent s1" .
  with embedDocuments_state [OF d] i d show ?thesis by auto
qed

lemma embedQuery_consistent:
  "consistent s \<Longrightarrow> consistent (snd (embedQuery env t s))"
  by (simp add: embedQuery_state embedDocuments_consistent)

lemma getEmbeddingDimension_consistent:
  "consistent s \<Longrightarrow> consistent (snd (getEmbeddingDimension env s))"
proof -
  assume c: "consistent s"
  obtain r s' where g: "getEmbeddingDimension env s = (r, s')" by (cases "getEmbeddingDimension env s")
  obtain r1 s1 where i: "await_initialize env s = (r1, s1)" by (cases "await_initialize env s")
  from await_initialize_consistent [OF c i] have "consistent s1" .
  with getEmbeddingDimension_state [OF g] i g show ?thesis by auto
qed

lemma healthCheck_state:
  "snd (healthCheck env s) = snd (await_initialize env s) \<or>
   snd (healthCheck env s) = snd (getEmbeddingDimension env (snd (await_initialize env s)))"
  by (auto simp: healthCheck_def split: prod.splits sum.splits)

lemma healthCheck_consistent:
  "consistent s \<Longrightarrow> consistent (snd (healthCheck env s))"
proof -
  assume c: "consistent s"
  obtain r1 s1 where i: "await_initialize env s = (r1, s1)" by (cases "await_initialize env s")
  from await_initialize_consistent [OF c i] have c1: "consistent s1" .
  from getEmbeddingDimension_consistent [OF c1] have "consistent (snd (getEmbeddingDimension env s1))" .
  with c1 i healthCheck_state [of env s] show ?thesis by auto
qed

lemma getServiceInfo_state: "snd (getServiceInfo env s) = snd (healthCheck env s)"
  by (auto simp: getServiceInfo_def split: prod.splits sum.splits)

lemma getServiceInfo_consistent:
  "consistent s \<Longrightarrow> consistent (snd (getServiceInfo env s))"
  by (simp add: getServiceInfo_state healthCheck_consistent)

text \<open>
  C7. From a consistent state \<^verbatim>\<open>healthCheck\<close> always returns a record, with a timestamp.
  When initialization and the dimension succeed the record says \<^verbatim>\<open>healthy\<close> and holds the
  model identifier, the dimension and \<^verbatim>\<open>initialized: true\<close>; when either fails it says
  \<^verbatim>\<open>unhealthy\<close> and holds an error message that is not empty.
\<close>

theorem healthCheck_never_raises:
  "consistent s \<Longrightarrow>
     \<exists>h. fst (healthCheck env s) = Inr h \<and> timestamp h = clock env \<and>
       ((\<exists>d. fst (getEmbeddingDimension env s) = Inr d \<and>
             status h = ''healthy'' \<and> health_model h = Some (modelName s) \<and>
             dimension h = Some d \<and> initialized h = Some True \<and> health_error h = None) \<or>
        (\<exists>e msg. fst (getEmbeddingDimension env s) = Inl e \<and>
             status h = ''unhealthy'' \<and> health_error h = Some msg \<and> msg \<noteq> [] \<and>
             health_model h = None \<and> dimension h = None \<and> initialized h = None))"
proof -
  assume c: "consistent s"
  obtain r1 s1 where i: "await_initialize env s = (r1, s1)" by (cases "await_initialize env s")
  show ?thesis
  proof (cases r1)
    case (Inl e)
    with i have i': "await_initialize env s = (Inl e, s1)" by simp
    from await_initialize_error [OF c i'] have "message e \<noteq> []"
      by (auto simp: starts_with_def)
    moreover from i' have "\<exists>e'. fst (getEmbeddingDimension env s) = Inl e'"
      by (simp add: getEmbeddingDimension_def rethrow_def)
    moreover from i' have "fst (healthCheck env s)
        = Inr \<lparr> status = ''unhealthy'', health_model = None, dimension = None,
                initialized = None, health_error = Some (message e),
                timestamp = clock env \<rparr>"
      by (simp add: healthCheck_def)
    ultimately show ?thesis by auto
  next
    case (Inr u)
    with i have i': "await_initialize env s = (Inr u, s1)" by simp
    from await_initialize_ready [OF c i'] have rdy: "isInitialized s1" by simp
    from await_initialize_frame [OF i'] have mn: "modelName s1 = modelName s" by simp
    obtain r2 s2 where g: "getEmbeddingDimension env s1 = (r2, s2)"
      by (cases "getEmbeddingDimension env s1")
    from getEmbeddingDimension_after_initialize [OF i'] g
    have g': "getEmbeddingDimension env s = (r2, s2)" by simp
    from getEmbeddingDimension_state [OF g] await_initialize_again [OF i', of env]
    obtain tr cd where s2: "s2 = s1\<lparr> inferred := tr, cachedDimension := cd \<rparr>" by auto
    show ?thesis
    proof (cases r2)
      case (Inl e)
      with g have "message e \<noteq> []"
        using getEmbeddingDimension_Inl [of env s1 e s2] by (auto simp: starts_with_def)
      moreover from i' g Inl have "fst (healthCheck env s)
        = Inr \<lparr> status = ''unhealthy'', health_model = None, dimension = None,
                initialized = None, health_error = Some (message e),
                timestamp = clock env \<rparr>"
        by (simp add: healthCheck_def)
      ultimately show ?thesis using g' Inl by auto
    next
      case (Inr d)
      with i' g have "fst (healthCheck env s)
        = Inr \<lparr> status = ''healthy'', health_model = Some (modelName s2),
                dimension = Some d, initialized = Some (isInitialized s2),
                health_error = None, timestamp = clock env \<rparr>"
        by (simp add: healthCheck_def)
      with s2 rdy mn g' Inr show ?thesis by auto
    qed
  qed
qed

theorem healthCheck_never_raises_witness:
  "consistent (constructor ''M'' :: nat service) \<and>
   fst (healthCheck steady_env (constructor ''M''))
     = Inr \<lparr> status = ''healthy'', health_model = Some ''M'', dimension = Some 2,
             initialized = Some True, health_error = None,
             timestamp = ''2025-01-01T00:00:00.000Z'' \<rparr> \<and>
   fst (healthCheck flaky_env (constructor ''M''))
     = Inr \<lparr> status = ''unhealthy'', health_model = None, dimension = None,
             initialized = None,
             health_error = Some ''Failed to initialize embedding model: fetch failed'',
             timestamp = ''2025-01-01T00:00:00.000Z'' \<rparr>"
proof -
  have c: "consistent (constructor ''M'' :: nat service)" by (rule consistent_constructor)
  have g: "fst (getEmbeddingDimension steady_env (constructor ''M'')) = Inr 2"
    by (simp add: eval_more steady_env_def example_pipeline_def)
  have k: "clock steady_env = ''2025-01-01T00:00:00.000Z''" by (simp add: steady_env_def)
  from healthCheck_never_raises [OF c, of steady_env] g k
  have a: "fst (healthCheck steady_env (constructor ''M''))
     = Inr \<lparr> status = ''healthy'', health_model = Some ''M'', dimension = Some 2,
             initialized = Some True, health_error = None,
             timestamp = ''2025-01-01T00:00:00.000Z'' \<rparr>"
    by (auto simp: constructor_def)
  have b: "fst (healthCheck flaky_env (constructor ''M''))
     = Inr \<lparr> status = ''unhealthy'', health_model = None, dimension = None,
             initialized = None,
             health_error = Some ''Failed to initialize embedding model: fetch failed'',
             timestamp = ''2025-01-01T00:00:00.000Z'' \<rparr>"
    by (simp add: eval_more flaky_env_def)
  from a b c show ?thesis by blast
qed

lemma healthCheck_total:
  "\<exists>h s'. healthCheck env s = (Inr h, s') \<and> modelName s' = modelName s \<and>
     (status h = ''healthy'' \<and> health_error h = None \<or>
      status h = ''unhealthy'' \<and> dimension h = None)"
proof -
  obtain r1 s1 where i: "await_initialize env s = (r1, s1)" by (cases "await_initialize env s")
  from await_initialize_frame [OF i] have mn: "modelName s1 = modelName s" by simp
  show ?thesis
  proof (cases r1)
    case (Inl e)
    with i mn show ?thesis by (simp add: healthCheck_def)
  next
    case (Inr u)
    with i have i': "await_initialize env s = (Inr u, s1)" by simp
    obtain r2 s2 where g: "getEmbeddingDimension env s1 = (r2, s2)"
      by (cases "getEmbeddingDimension env s1")
    from getEmbeddingDimension_state [OF g] await_initialize_again [OF i', of env]
    obtain tr cd where s2: "s2 = s1\<lparr> inferred := tr, cachedDimension := cd \<rparr>" by auto
    with mn have "modelName s2 = modelName s" by simp
    with i' g show ?thesis by (cases r2) (simp_all add: healthCheck_def)
  qed
qed

text \<open>
  C8, as the code has it. \<^verbatim>\<open>getServiceInfo\<close> always returns a record; it holds the service
  name, the model identifier, the static descriptors, and the status and the dimension of
  the health record as they are. The status is \<^verbatim>\<open>healthy\<close> or \<^verbatim>\<open>unhealthy\<close>, never
  \<^verbatim>\<open>error\<close>, and the record has no error message: \<^verbatim>\<open>healthCheck\<close> never throws, so the
  \<^verbatim>\<open>catch\<close> that would build the \<^verbatim>\<open>error\<close> record is never entered.
\<close>

theorem getServiceInfo_passes_status:
  "\<exists>h i. fst (healthCheck env s) = Inr h \<and> fst (getServiceInfo env s) = Inr i \<and>
     name i = ''Transformers.js Embeddings'' \<and> info_model i = modelName s \<and>
     info_status i = status h \<and> (status h = ''healthy'' \<or> status h = ''unhealthy'') \<and>
     info_dimension i = dimension h \<and> info_error i = None \<and>
     backend i = Some ''local'' \<and> cost i = Some ''free'' \<and> rateLimit i = Some ''none''"
proof -
  from healthCheck_total [of env s] obtain h s' where
    h: "healthCheck env s = (Inr h, s')" "modelName s' = modelName s"
    "status h = ''healthy'' \<or> status h = ''unhealthy''" by blast
  then have "fst (getServiceInfo env s)
      = Inr \<lparr> name = ''Transformers.js Embeddings'', info_model = modelName s,
               info_status = status h, info_dimension = dimension h,
               backend = Some ''local'', cost = Some ''free'', rateLimit = Some ''none'',
               info_error = None \<rparr>"
    by (simp add: getServiceInfo_def)
  with h show ?thesis by auto
qed

theorem getServiceInfo_passes_status_witness:
  "fst (healthCheck flaky_env (constructor ''M''))
     = Inr \<lparr> status = ''unhealthy'', health_model = None, dimension = None,
             initialized = None,
             health_error = Some ''Failed to initialize embedding model: fetch failed'',
             timestamp = ''2025-01-01T00:00:00.000Z'' \<rparr> \<and>
   fst (getServiceInfo flaky_env (constructor ''M''))
     = Inr \<lparr> name = ''Transformers.js Embeddings'', info_model = ''M'',
             info_status = ''unhealthy'', info_dimension = None,
             backend = Some ''local'', cost = Some ''free'', rateLimit = Some ''none'',
             info_error = None \<rparr>"
proof -
  have a: "fst (healthCheck flaky_env (constructor ''M''))
     = Inr \<lparr> status = ''unhealthy'', health_model = None, dimension = None,
             initialized = None,
             health_error = Some ''Failed to initialize embedding model: fetch failed'',
             timestamp = ''2025-01-01T00:00:00.000Z'' \<rparr>"
    by (simp add: eval_more flaky_env_def)
  from getServiceInfo_passes_status [of flaky_env "constructor ''M''"] a
  obtain i where i: "fst (getServiceInfo flaky_env (constructor ''M'')) = Inr i"
    "name i = ''Transformers.js Embeddings''" "info_model i = modelName (constructor ''M'' :: nat service)"
    "info_status i = ''unhealthy''" "info_dimension i = None" "info_error i = None"
    "backend i = Some ''local''" "cost i = Some ''free''" "rateLimit i = Some ''none''"
    by auto
  then have "i = \<lparr> name = ''Transformers.js Embeddings'', info_model = ''M'',
             info_status = ''unhealthy'', info_dimension = None,
             backend = Some ''local'', cost = Some ''free'', rateLimit = Some ''none'',
             info_error = None \<rparr>"
    by (cases i) (simp add: constructor_def)
  with a i(1) show ?thesis by simp
qed

text \<open>
  C8, as stated, fails: when the model cannot be loaded the record has status
  \<^verbatim>\<open>unhealthy\<close> and no error message.
\<close>

theorem getServiceInfo_counterexample:
  "fst (getServiceInfo flaky_env (constructor ''M''))
     = Inr \<lparr> name = ''Transformers.js Embeddings'', info_model = ''M'',
             info_status = ''unhealthy'', info_dimension = None,
             backend = Some ''local'', cost = Some ''free'', rateLimit = Some ''none'',
             info_error = None \<rparr>"
  by (simp add: eval_more flaky_env_def)

end
